theory Spec2Isabelle
  imports Complex_Main "HOL-Library.Word"
begin

unbundle bit_operations_syntax

section \<open>Bytes and Python slices\<close>

text \<open>
  Python \<open>bytes\<close> are lists of 8-bit words.  A slice never raises: \<open>xs[i:j]\<close> is
  \<open>take (j - i) (drop i xs)\<close>, \<open>xs[i:]\<close> is \<open>drop i xs\<close>.  The two slices with a negated
  bound that \<open>Transport.py\<close> uses are written out, because \<open>-0\<close> is \<open>0\<close> in Python:
  \<open>xs[-0:]\<close> is the whole of \<open>xs\<close> and \<open>xs[:-0]\<close> is empty.
\<close>

type_synonym byte = "8 word"
type_synonym bytes = "byte list"

definition slice :: "nat \<Rightarrow> nat \<Rightarrow> 'a list \<Rightarrow> 'a list" where
  "slice i j xs = take (j - i) (drop i xs)"

definition last_n :: "nat \<Rightarrow> 'a list \<Rightarrow> 'a list" where
  "last_n n xs = (if n = 0 then xs else drop (length xs - n) xs)"

definition strip_last_n :: "nat \<Rightarrow> 'a list \<Rightarrow> 'a list" where
  "strip_last_n n xs = (if n = 0 then [] else take (length xs - n) xs)"

text \<open>\<open>struct.pack("!B", v)\<close> raises \<open>struct.error\<close> unless \<open>0 \<le> v \<le> 255\<close>.\<close>

definition struct_pack_B :: "nat \<Rightarrow> bytes option" where
  "struct_pack_B v = (if v < 256 then Some [of_nat v] else None)"

text \<open>\<open>int.from_bytes(bs, "big")\<close>.\<close>

definition from_bytes_big :: "bytes \<Rightarrow> nat" where
  "from_bytes_big bs = foldl (\<lambda>acc b. acc * 256 + unat b) 0 bs"

section \<open>The packet and interface contracts\<close>

text \<open>
  \<open>RNS.Packet\<close>, \<open>RNS.Destination\<close> and the interface drivers are not part of
  \<open>Transport.py\<close>.  Their enumerations are datatypes here; a context byte that is none of the
  named contexts is \<open>OTHER_CONTEXT\<close>.
\<close>

datatype packet_type = DATA | ANNOUNCE | LINKREQUEST | PROOF

datatype destination_type = SINGLE | GROUP | PLAIN | LINK

datatype packet_context =
    NONE | RESOURCE | RESOURCE_ADV | RESOURCE_REQ | RESOURCE_HMU | RESOURCE_PRF
  | RESOURCE_ICL | RESOURCE_RCL | CACHE_REQUEST | REQUEST | RESPONSE | PATH_RESPONSE
  | COMMAND | COMMAND_STATUS | CHANNEL | KEEPALIVE | LINKIDENTIFY | LINKCLOSE
  | LINKPROOF | LRRTT | LRPROOF | OTHER_CONTEXT nat

text \<open>
  Modelled from the spec: the numeric values of \<open>RNS.Packet.HEADER_1\<close> and
  \<open>RNS.Packet.HEADER_2\<close> are missing from \<open>src/\<close>; the spec's header layout
  \<open>(header_type << 6) | (transport_type << 4) | flags\<close> with
  \<open>header_type \<in> {HEADER_1, HEADER_2}\<close> leaves one bit for them, in this order.
  The transport types are the constants of \<open>Transport\<close> itself.
\<close>

definition HEADER_1 :: nat where "HEADER_1 = 0"
definition HEADER_2 :: nat where "HEADER_2 = 1"

definition BROADCAST :: nat where "BROADCAST = 0"
definition TRANSPORT :: nat where "TRANSPORT = 1"
definition RELAY :: nat where "RELAY = 2"
definition TUNNEL :: nat where "TUNNEL = 3"

text \<open>
  An interface object.  Python compares interfaces by object identity; here two interfaces are
  the same object iff their records are equal, and \<open>if_name\<close> tells different objects apart.
  \<open>ifac_identity\<close> is the signing key of the interface's IFAC identity, when it has one.
\<close>

record interface =
  if_name :: string
  bitrate :: "nat option"
  HW_MTU :: "nat option"
  AUTOCONFIGURE_MTU :: bool
  FIXED_MTU :: bool
  ifac_identity :: "bytes option"
  ifac_key :: bytes
  ifac_size :: nat

record packet =
  raw :: bytes
  packet_hash :: bytes
  truncated_hash :: bytes
  packet_type :: packet_type
  pkt_context :: packet_context
  header_type :: nat
  flags :: nat
  transport_type :: nat
  transport_id :: "bytes option"
  destination_hash :: bytes
  destination_type :: destination_type
  hops :: nat
  data :: bytes
  receiving_interface :: "interface option"

section \<open>The tables of Transport\<close>

text \<open>
  The table entries are Python lists indexed by the \<open>IDX_*\<close> constants at the end of
  \<open>Transport.py\<close>; each field here is named after its index constant.
\<close>

record path_entry =
  pt_timestamp :: real
  pt_next_hop :: bytes
  pt_hops :: nat
  pt_expires :: real
  pt_randblobs :: "bytes list"
  pt_rvcd_if :: interface
  pt_packet :: bytes

record reverse_entry =
  rt_rcvd_if :: "interface option"
  rt_outb_if :: interface
  rt_timestamp :: real

record link_entry =
  lt_timestamp :: real
  lt_nh_trid :: bytes
  lt_nh_if :: interface
  lt_rem_hops :: nat
  lt_rcvd_if :: "interface option"
  lt_hops :: nat
  lt_dsthash :: bytes
  lt_validated :: bool
  lt_proof_tmo :: real

text \<open>
  A path stored under a tunnel has the same fields; its interface slot holds \<open>None\<close> when
  the path was learnt from an announce.  The tunnel's \<open>paths\<close> dictionary is a list of
  pairs in the dictionary's order.
\<close>

record tunnel_path =
  tp_timestamp :: real
  tp_next_hop :: bytes
  tp_hops :: nat
  tp_expires :: real
  tp_randblobs :: "bytes list"
  tp_rvcd_if :: "interface option"
  tp_packet :: bytes

record tunnel_entry =
  tt_tunnel_id :: bytes
  tt_if :: "interface option"
  tt_paths :: "(bytes \<times> tunnel_path) list"
  tt_expires :: real

datatype path_state = STATE_UNKNOWN | STATE_UNRESPONSIVE | STATE_RESPONSIVE

definition PATHFINDER_M :: nat where "PATHFINDER_M = 128"
definition PERSIST_RANDOM_BLOBS :: nat where "PERSIST_RANDOM_BLOBS = 32"
definition MAX_RANDOM_BLOBS :: nat where "MAX_RANDOM_BLOBS = 64"

text \<open>
  The class attributes of \<open>Transport\<close> that the modelled functions read or write.
  \<open>destinations\<close> holds the hashes of the registered destinations, \<open>pending_links\<close>
  the pairs \<open>(link_id, expected_hops)\<close> of the pending links and \<open>tunnels\<close> the values of
  the tunnels dictionary in its order.  Every function below that reads the clock takes the
  reading \<open>now\<close> of \<open>time.time()\<close> as an argument; successive readings within one call
  are the same value.
  \<open>transmitted\<close> is the trace of the calls \<open>Transport.transmit(interface, raw)\<close>, oldest
  first; what \<open>transmit\<close> then hands to the driver is modelled by \<open>transmit\<close> below.
  \<open>identity_hash\<close> is \<open>Transport.identity.hash\<close>, \<open>is_connected_to_shared_instance\<close> is
  \<open>Transport.owner.is_connected_to_shared_instance\<close> and \<open>transport_enabled\<close> is
  \<open>RNS.Reticulum.transport_enabled()\<close>.
\<close>

record transport =
  identity_hash :: bytes
  is_connected_to_shared_instance :: bool
  transport_enabled :: bool
  interfaces :: "interface list"
  local_client_interfaces :: "interface list"
  destinations :: "bytes list"
  pending_links :: "(bytes \<times> nat) list"
  packet_hashlist :: "bytes set"
  packet_hashlist_prev :: "bytes set"
  path_table :: "bytes \<rightharpoonup> path_entry"
  reverse_table :: "bytes \<rightharpoonup> reverse_entry"
  link_table :: "bytes \<rightharpoonup> link_entry"
  path_states :: "bytes \<rightharpoonup> path_state"
  tunnels :: "tunnel_entry list"
  transmitted :: "(interface \<times> bytes) list"

section \<open>Packet filter and hashlist\<close>

definition add_packet_hash :: "transport \<Rightarrow> bytes \<Rightarrow> transport" where
  "add_packet_hash T h =
     (if \<not> is_connected_to_shared_instance T
      then T\<lparr>packet_hashlist := insert h (packet_hashlist T)\<rparr>
      else T)"

definition packet_filter :: "transport \<Rightarrow> packet \<Rightarrow> bool" where
  "packet_filter T p =
     (if is_connected_to_shared_instance T then True
      else if transport_id p \<noteq> None \<and> packet_type p \<noteq> ANNOUNCE
              \<and> transport_id p \<noteq> Some (identity_hash T) then False
      else if pkt_context p = KEEPALIVE then True
      else if pkt_context p = RESOURCE_REQ then True
      else if pkt_context p = RESOURCE_PRF then True
      else if pkt_context p = RESOURCE then True
      else if pkt_context p = CACHE_REQUEST then True
      else if pkt_context p = CHANNEL then True
      else if destination_type p = PLAIN then
        (if packet_type p \<noteq> ANNOUNCE then (if hops p > 1 then False else True) else False)
      else if destination_type p = GROUP then
        (if packet_type p \<noteq> ANNOUNCE then (if hops p > 1 then False else True) else False)
      else if packet_hash p \<notin> packet_hashlist T \<and> packet_hash p \<notin> packet_hashlist_prev T
        then True
      else if packet_type p = ANNOUNCE then
        (if destination_type p = SINGLE then True else False)
      else False)"

text \<open>
  The packets that get as far as the hashlist test of \<open>packet_filter\<close>: none of the
  earlier \<open>return\<close> statements fires.
\<close>

definition reaches_hashlist_test :: "transport \<Rightarrow> packet \<Rightarrow> bool" where
  "reaches_hashlist_test T p =
     (\<not> is_connected_to_shared_instance T
      \<and> \<not> (transport_id p \<noteq> None \<and> packet_type p \<noteq> ANNOUNCE
             \<and> transport_id p \<noteq> Some (identity_hash T))
      \<and> pkt_context p \<notin> {KEEPALIVE, RESOURCE_REQ, RESOURCE_PRF, RESOURCE, CACHE_REQUEST, CHANNEL}
      \<and> destination_type p \<noteq> PLAIN \<and> destination_type p \<noteq> GROUP)"

text \<open>
  The admission rule in the spec's words (section 4.2): admit iff the packet hash is in
  neither hashlist generation; for announces, additionally require a SINGLE destination.
\<close>

definition spec_hashlist_admission :: "transport \<Rightarrow> packet \<Rightarrow> bool" where
  "spec_hashlist_admission T p =
     (packet_hash p \<notin> packet_hashlist T \<and> packet_hash p \<notin> packet_hashlist_prev T
      \<and> (if packet_type p = ANNOUNCE then destination_type p = SINGLE else True))"

section \<open>Outbound dispatch over a known path\<close>

text \<open>
  The first branch of \<open>Transport.outbound(packet)\<close> (the check for a known path and the
  three cases under it).  \<open>now\<close> is the reading of \<open>time.time()\<close>.  The result is
  \<open>Dispatched T' sent\<close> with the new state and the value of \<open>sent\<close>, \<open>Struct_error\<close> when
  \<open>struct.pack\<close> raises, or \<open>Broadcast_fallback\<close> when the branch is not taken and the packet
  goes to the per-interface broadcast loop, which is not modelled.  \<open>packet_sent\<close> only marks
  the packet object and keeps a receipt; it touches neither the path table nor the interfaces
  and is left out.
\<close>

datatype outbound_result = Broadcast_fallback | Struct_error | Dispatched transport bool

definition transport_header_flags :: "packet \<Rightarrow> nat" where
  "transport_header_flags p = push_bit 6 HEADER_2 OR push_bit 4 TRANSPORT OR (flags p AND 15)"

definition insert_into_transport :: "real \<Rightarrow> transport \<Rightarrow> packet \<Rightarrow> path_entry \<Rightarrow> outbound_result" where
  "insert_into_transport now T p pe =
     (if header_type p = HEADER_1 then
        (case struct_pack_B (transport_header_flags p) of
           None \<Rightarrow> Struct_error
         | Some new_flags \<Rightarrow>
             (let new_raw = new_flags @ slice 1 2 (raw p) @ pt_next_hop pe @ drop 2 (raw p)
              in Dispatched
                   (T\<lparr>transmitted := transmitted T @ [(pt_rvcd_if pe, new_raw)],
                      path_table := (path_table T)(destination_hash p \<mapsto> pe\<lparr>pt_timestamp := now\<rparr>)\<rparr>)
                   True))
      else Dispatched T False)"

definition outbound :: "real \<Rightarrow> transport \<Rightarrow> packet \<Rightarrow> outbound_result" where
  "outbound now T p =
     (if packet_type p \<noteq> ANNOUNCE \<and> destination_type p \<noteq> PLAIN
         \<and> destination_type p \<noteq> GROUP then
        (case path_table T (destination_hash p) of
           Some pe \<Rightarrow>
             (if pt_hops pe > 1 then insert_into_transport now T p pe
              else if pt_hops pe = 1 \<and> is_connected_to_shared_instance T
                then insert_into_transport now T p pe
              else Dispatched (T\<lparr>transmitted := transmitted T @ [(pt_rvcd_if pe, raw p)]\<rparr>) True)
         | None \<Rightarrow> Broadcast_fallback)
      else Broadcast_fallback)"

section \<open>Inbound: transit forwarding\<close>

text \<open>
  What \<open>Transport.py\<close> uses of \<open>RNS.Link\<close>, \<open>RNS.Identity\<close> and \<open>RNS.Reticulum\<close>, none of
  which is under \<open>src/\<close>: constants and functions are parameters.  The lengths are in the
  unit of the source (\<open>HASHLENGTH\<close>, \<open>TRUNCATED_HASHLENGTH\<close>, \<open>KEYSIZE\<close>,
  \<open>NAME_HASH_LENGTH\<close> and \<open>SIGLENGTH\<close> in bits, \<open>ECPUBSIZE\<close> and \<open>LINK_MTU_SIZE\<close> in
  bytes).  \<open>signalling_bytes\<close> may raise (\<open>None\<close>); \<open>recall\<close> gives the public key of a
  known identity; \<open>validate pub signature msg\<close> is \<open>identity.validate(signature, msg)\<close>;
  \<open>get_hash\<close> is \<open>interface.get_hash()\<close>; \<open>cached h\<close> says whether the packet cache on
  disk holds a packet under \<open>h\<close>.
\<close>

record rns =
  HASHLENGTH :: nat
  TRUNCATED_HASHLENGTH :: nat
  KEYSIZE :: nat
  NAME_HASH_LENGTH :: nat
  SIGLENGTH :: nat
  ECPUBSIZE :: nat
  LINK_MTU_SIZE :: nat
  MTU :: nat
  ESTABLISHMENT_TIMEOUT_PER_HOP :: real
  mtu_from_lr_packet :: "packet \<Rightarrow> nat option"
  mode_from_lr_packet :: "packet \<Rightarrow> nat"
  mtu_from_lp_packet :: "packet \<Rightarrow> nat option"
  mode_from_lp_packet :: "packet \<Rightarrow> nat"
  signalling_bytes :: "nat option \<Rightarrow> nat \<Rightarrow> bytes option"
  link_id_from_lr_packet :: "packet \<Rightarrow> bytes"
  recall :: "bytes \<Rightarrow> bytes option"
  validate :: "bytes \<Rightarrow> bytes \<Rightarrow> bytes \<Rightarrow> bool"
  get_hash :: "interface \<Rightarrow> bytes"
  cached :: "bytes \<Rightarrow> bool"

text \<open>
  The local variables \<open>from_local_client\<close>, \<open>for_local_client\<close>,
  \<open>for_local_client_link\<close> and \<open>proof_for_local_client\<close> that \<open>inbound\<close> computes once a
  packet has passed the filter.
\<close>

definition is_local_client :: "transport \<Rightarrow> interface option \<Rightarrow> bool" where
  "is_local_client T interface =
     (case interface of Some i \<Rightarrow> i \<in> set (local_client_interfaces T) | None \<Rightarrow> False)"

definition from_local_client :: "transport \<Rightarrow> packet \<Rightarrow> bool" where
  "from_local_client T p = is_local_client T (receiving_interface p)"

definition for_local_client :: "transport \<Rightarrow> packet \<Rightarrow> bool" where
  "for_local_client T p =
     (packet_type p \<noteq> ANNOUNCE
      \<and> (case path_table T (destination_hash p) of
            Some pe \<Rightarrow> pt_hops pe = 0 | None \<Rightarrow> False))"

definition for_local_client_link :: "transport \<Rightarrow> packet \<Rightarrow> bool" where
  "for_local_client_link T p =
     ((packet_type p \<noteq> ANNOUNCE
        \<and> (case link_table T (destination_hash p) of
              Some le \<Rightarrow> is_local_client T (lt_rcvd_if le) | None \<Rightarrow> False))
      \<or> (packet_type p \<noteq> ANNOUNCE
        \<and> (case link_table T (destination_hash p) of
              Some le \<Rightarrow> is_local_client T (Some (lt_nh_if le)) | None \<Rightarrow> False)))"

definition proof_for_local_client :: "transport \<Rightarrow> packet \<Rightarrow> bool" where
  "proof_for_local_client T p =
     (case reverse_table T (destination_hash p) of
        Some re \<Rightarrow> is_local_client T (rt_rcvd_if re) | None \<Rightarrow> False)"

text \<open>
  Control flow of a stretch of \<open>inbound\<close>: an exception escapes the call (\<open>Raises\<close>), the
  call executes \<open>return\<close> (\<open>Returns\<close>), or control reaches the end of the stretch
  (\<open>Continues\<close>), each with the state as it is by then.
\<close>

datatype flow = Raises transport | Returns transport | Continues transport

text \<open>
  \<open>Transport.transmit(interface, raw)\<close> as the dispatchers see it: the call is logged; on
  \<open>None\<close> the attribute error is caught inside \<open>transmit\<close> and nothing is sent.
\<close>

definition call_transmit :: "interface option \<Rightarrow> bytes \<Rightarrow> transport \<Rightarrow> transport" where
  "call_transmit interface bs T =
     (case interface of
        Some i \<Rightarrow> T\<lparr>transmitted := transmitted T @ [(i, bs)]\<rparr>
      | None \<Rightarrow> T)"

text \<open>
  \<open>extra_link_proof_timeout\<close>: dividing by a bit rate that is \<open>None\<close> or \<open>0\<close> raises.
\<close>

definition extra_link_proof_timeout :: "rns \<Rightarrow> interface option \<Rightarrow> real option" where
  "extra_link_proof_timeout R interface =
     (case interface of
        Some i \<Rightarrow>
          (case bitrate i of
             None \<Rightarrow> None
           | Some b \<Rightarrow> if b = 0 then None else Some (((1 / real b) * 8) * real (MTU R)))
      | None \<Rightarrow> Some 0)"

text \<open>The frame built from the stored remaining hops (the \<open>if/elif/elif\<close> chain).\<close>

definition transit_new_raw :: "rns \<Rightarrow> packet \<Rightarrow> path_entry \<Rightarrow> bytes option" where
  "transit_new_raw R p pe =
     (let next_hop = pt_next_hop pe; remaining_hops = pt_hops pe in
      if remaining_hops > 1 then
        (case struct_pack_B (hops p) of
           None \<Rightarrow> None
         | Some h \<Rightarrow>
             Some (slice 0 1 (raw p) @ h @ next_hop
                   @ drop (TRUNCATED_HASHLENGTH R div 8 + 2) (raw p)))
      else if remaining_hops = 1 then
        (case struct_pack_B (push_bit 6 HEADER_1 OR push_bit 4 BROADCAST OR (flags p AND 15)) of
           None \<Rightarrow> None
         | Some new_flags \<Rightarrow>
             (case struct_pack_B (hops p) of
                None \<Rightarrow> None
              | Some h \<Rightarrow>
                  Some (new_flags @ h @ drop (TRUNCATED_HASHLENGTH R div 8 + 2) (raw p))))
      else
        (case struct_pack_B (hops p) of
           None \<Rightarrow> None
         | Some h \<Rightarrow> Some (slice 0 1 (raw p) @ h @ drop 2 (raw p))))"

text \<open>
  The link-MTU handling of a forwarded LINKREQUEST: the frame to send, or \<open>None\<close> when
  \<open>signalling_bytes\<close> raised and the request is dropped with \<open>return\<close>.
\<close>

definition clamp_link_mtu :: "rns \<Rightarrow> packet \<Rightarrow> interface \<Rightarrow> bytes \<Rightarrow> bytes option" where
  "clamp_link_mtu R p outbound_interface new_raw =
     (case mtu_from_lr_packet R p of
        None \<Rightarrow> Some new_raw
      | Some path_mtu \<Rightarrow>
          if path_mtu = 0 then Some new_raw
          else
            (case HW_MTU outbound_interface of
               None \<Rightarrow> Some (strip_last_n (LINK_MTU_SIZE R) new_raw)
             | Some nh_mtu \<Rightarrow>
                 if \<not> AUTOCONFIGURE_MTU outbound_interface \<and> \<not> FIXED_MTU outbound_interface
                 then Some (strip_last_n (LINK_MTU_SIZE R) new_raw)
                 else if nh_mtu < path_mtu then
                   (case signalling_bytes R (Some nh_mtu) (mode_from_lr_packet R p) of
                      None \<Rightarrow> None
                    | Some clamped_mtu \<Rightarrow>
                        Some (strip_last_n (LINK_MTU_SIZE R) new_raw @ clamped_mtu))
                 else Some new_raw))"

text \<open>
  The stretch of \<open>inbound\<close> headed "If the packet is in transport, check whether we are the
  designated next hop".
\<close>

definition transit_forward :: "rns \<Rightarrow> real \<Rightarrow> transport \<Rightarrow> packet \<Rightarrow> flow" where
  "transit_forward R now T p =
     (if transport_id p \<noteq> None \<and> packet_type p \<noteq> ANNOUNCE then
        (if transport_id p = Some (identity_hash T) then
           (case path_table T (destination_hash p) of
              Some pe \<Rightarrow>
                (case transit_new_raw R p pe of
                   None \<Rightarrow> Raises T
                 | Some new_raw \<Rightarrow>
                     (let outbound_interface = pt_rvcd_if pe;
                          refresh = (\<lambda>T'. T'\<lparr>path_table :=
                              (path_table T')(destination_hash p \<mapsto> pe\<lparr>pt_timestamp := now\<rparr>)\<rparr>)
                      in
                      if packet_type p = LINKREQUEST then
                        (case extra_link_proof_timeout R (receiving_interface p) of
                           None \<Rightarrow> Raises T
                         | Some extra \<Rightarrow>
                             (let proof_timeout =
                                    extra + (now + ESTABLISHMENT_TIMEOUT_PER_HOP R
                                                   * real (max 1 (pt_hops pe)))
                              in
                              case clamp_link_mtu R p outbound_interface new_raw of
                                None \<Rightarrow> Returns T
                              | Some lr_raw \<Rightarrow>
                                  (let link_entry =
                                         \<lparr>lt_timestamp = now, lt_nh_trid = pt_next_hop pe,
                                          lt_nh_if = outbound_interface,
                                          lt_rem_hops = pt_hops pe,
                                          lt_rcvd_if = receiving_interface p,
                                          lt_hops = hops p,
                                          lt_dsthash = destination_hash p,
                                          lt_validated = False,
                                          lt_proof_tmo = proof_timeout\<rparr>
                                   in Continues
                                        (refresh
                                          (call_transmit (Some outbound_interface) lr_raw
                                            (T\<lparr>link_table := (link_table T)
                                                 (link_id_from_lr_packet R p \<mapsto> link_entry)\<rparr>))))))
                      else
                        (let reverse_entry =
                               \<lparr>rt_rcvd_if = receiving_interface p,
                                rt_outb_if = outbound_interface, rt_timestamp = now\<rparr>
                         in Continues
                              (refresh
                                (call_transmit (Some outbound_interface) new_raw
                                  (T\<lparr>reverse_table := (reverse_table T)
                                       (truncated_hash p \<mapsto> reverse_entry)\<rparr>))))))
            | None \<Rightarrow> Continues T)
         else Continues T)
      else Continues T)"

text \<open>
  \<open>cache_request_packet\<close> compares \<open>len(packet.data)\<close> with the float \<open>HASHLENGTH/8\<close>; when
  it finds the packet in the cache it replays it through \<open>inbound\<close> and returns \<open>True\<close>.
\<close>

definition cache_request_packet :: "rns \<Rightarrow> packet \<Rightarrow> bool" where
  "cache_request_packet R p =
     (HASHLENGTH R mod 8 = 0 \<and> length (data p) = HASHLENGTH R div 8 \<and> cached R (data p))"

text \<open>
  The section "General transport handling" of \<open>inbound\<close> down to the transit stretch: its
  guard, the re-insertion of the transport id for a packet to a local client, and the cache
  request.  \<open>None\<close> stands for a cache request that was served by replaying the cached packet
  (a nested call of \<open>inbound\<close>, not followed here).
\<close>

definition inbound_transit :: "rns \<Rightarrow> real \<Rightarrow> transport \<Rightarrow> packet \<Rightarrow> flow option" where
  "inbound_transit R now T p =
     (if transport_enabled T \<or> from_local_client T p \<or> for_local_client T p
         \<or> for_local_client_link T p then
        (let p' = (if transport_id p = None \<and> for_local_client T p
                   then p\<lparr>transport_id := Some (identity_hash T)\<rparr> else p)
         in if pkt_context p' = CACHE_REQUEST \<and> cache_request_packet R p' then None
            else Some (transit_forward R now T p'))
      else Some (Continues T))"

definition flow_state :: "flow \<Rightarrow> transport" where
  "flow_state f = (case f of Raises T \<Rightarrow> T | Returns T \<Rightarrow> T | Continues T \<Rightarrow> T)"

section \<open>Inbound: proofs and link-request proofs\<close>

text \<open>
  The signature check of a link-request proof in transit, inside its \<open>try\<close>:
  \<open>Some True\<close> when \<open>peer_identity.validate\<close> accepts, \<open>Some False\<close> when it rejects or the
  data has neither of the two lengths, \<open>None\<close> when an exception is caught
  (\<open>signalling_bytes\<close> raises, or the destination's identity is not known).
\<close>

definition lrproof_validated :: "rns \<Rightarrow> link_entry \<Rightarrow> packet \<Rightarrow> bool option" where
  "lrproof_validated R link_entry p =
     (let siglen = SIGLENGTH R div 8; half = ECPUBSIZE R div 2; n = length (data p) in
      if n = siglen + half \<or> n = siglen + half + LINK_MTU_SIZE R then
        (case (if n = siglen + half + LINK_MTU_SIZE R
               then signalling_bytes R (mtu_from_lp_packet R p) (mode_from_lp_packet R p)
               else Some []) of
           None \<Rightarrow> None
         | Some signalling \<Rightarrow>
             (case recall R (lt_dsthash link_entry) of
                None \<Rightarrow> None
              | Some public_key \<Rightarrow>
                  (let peer_pub_bytes = slice siglen (siglen + half) (data p);
                       peer_sig_pub_bytes = slice half (ECPUBSIZE R) public_key;
                       signed_data = destination_hash p @ peer_pub_bytes
                                     @ peer_sig_pub_bytes @ signalling;
                       signature = take siglen (data p)
                   in Some (validate R public_key signature signed_data))))
      else Some False)"

text \<open>
  The arm of \<open>inbound\<close> for a PROOF with context LRPROOF.  Without a link entry (or when this
  instance does not transport), the proof is offered to the local pending links; what
  \<open>link.validate_proof\<close> does then belongs to the link module.
\<close>

definition inbound_lrproof :: "rns \<Rightarrow> transport \<Rightarrow> packet \<Rightarrow> transport" where
  "inbound_lrproof R T p =
     (case (if transport_enabled T \<or> for_local_client_link T p \<or> from_local_client T p
            then link_table T (destination_hash p) else None) of
        Some link_entry \<Rightarrow>
          (if hops p = lt_rem_hops link_entry then
             (if receiving_interface p = Some (lt_nh_if link_entry) then
                (case lrproof_validated R link_entry p of
                   Some True \<Rightarrow>
                     (case struct_pack_B (hops p) of
                        None \<Rightarrow> T
                      | Some h \<Rightarrow>
                          call_transmit (lt_rcvd_if link_entry)
                            (slice 0 1 (raw p) @ h @ drop 2 (raw p))
                            (T\<lparr>link_table := (link_table T)
                                 (destination_hash p \<mapsto> link_entry\<lparr>lt_validated := True\<rparr>)\<rparr>))
                 | _ \<Rightarrow> T)
              else T)
           else T)
      | None \<Rightarrow>
          foldl (\<lambda>T' (link_id, expected_hops).
                   if link_id = destination_hash p
                      \<and> (hops p = expected_hops \<or> expected_hops = PATHFINDER_M)
                   then add_packet_hash T' (packet_hash p) else T')
                T (pending_links T))"

text \<open>
  The arm of \<open>inbound\<close> for a PROOF, up to the walk over the receipts (which belongs to the
  receipts of locally sent packets).  \<open>struct.pack\<close> in the reverse-table case is not inside a
  \<open>try\<close>.
\<close>

definition inbound_proof :: "rns \<Rightarrow> transport \<Rightarrow> packet \<Rightarrow> flow" where
  "inbound_proof R T p =
     (if pkt_context p = LRPROOF then Continues (inbound_lrproof R T p)
      else if pkt_context p = RESOURCE_PRF then Continues T
      else
        (case (if transport_enabled T \<or> from_local_client T p \<or> proof_for_local_client T p
               then reverse_table T (destination_hash p) else None) of
           Some reverse_entry \<Rightarrow>
             (let T1 = T\<lparr>reverse_table := (reverse_table T)(destination_hash p := None)\<rparr> in
              if receiving_interface p = Some (rt_outb_if reverse_entry) then
                (case struct_pack_B (hops p) of
                   None \<Rightarrow> Raises T1
                 | Some h \<Rightarrow>
                     Continues (call_transmit (rt_rcvd_if reverse_entry)
                                  (slice 0 1 (raw p) @ h @ drop 2 (raw p)) T1))
              else Continues T1)
         | None \<Rightarrow> Continues T))"

section \<open>Announce admission\<close>

definition timebase_from_random_blob :: "bytes \<Rightarrow> nat" where
  "timebase_from_random_blob random_blob = from_bytes_big (slice 5 10 random_blob)"

definition timebase_from_random_blobs :: "bytes list \<Rightarrow> nat" where
  "timebase_from_random_blobs random_blobs =
     foldl (\<lambda>timebase random_blob.
              (let emitted = timebase_from_random_blob random_blob
               in if emitted > timebase then emitted else timebase))
           0 random_blobs"

definition announce_random_blob :: "rns \<Rightarrow> packet \<Rightarrow> bytes" where
  "announce_random_blob R p =
     slice (KEYSIZE R div 8 + NAME_HASH_LENGTH R div 8)
           (KEYSIZE R div 8 + NAME_HASH_LENGTH R div 8 + 10) (data p)"

definition announce_emitted :: "rns \<Rightarrow> packet \<Rightarrow> nat" where
  "announce_emitted R p = timebase_from_random_blob (announce_random_blob R p)"

text \<open>
  The loop of \<open>inbound\<close> that computes \<open>path_announce_emitted\<close> for an announce with more hops
  than the stored path; it leaves the loop as soon as the running maximum reaches the
  announce's own emission time.
\<close>

fun path_announce_emitted_loop :: "nat \<Rightarrow> nat \<Rightarrow> bytes list \<Rightarrow> nat" where
  "path_announce_emitted_loop emitted acc [] = acc"
| "path_announce_emitted_loop emitted acc (path_random_blob # rest) =
     (let acc' = max acc (from_bytes_big (slice 5 10 path_random_blob))
      in if acc' \<ge> emitted then acc' else path_announce_emitted_loop emitted acc' rest)"

definition mark_path_unknown_state :: "transport \<Rightarrow> bytes \<Rightarrow> transport" where
  "mark_path_unknown_state T destination =
     (if path_table T destination \<noteq> None
      then T\<lparr>path_states := (path_states T)(destination \<mapsto> STATE_UNKNOWN)\<rparr> else T)"

definition path_is_unresponsive :: "transport \<Rightarrow> bytes \<Rightarrow> bool" where
  "path_is_unresponsive T destination = (path_states T destination = Some STATE_UNRESPONSIVE)"

text \<open>
  The decision \<open>should_add\<close> of \<open>inbound\<close> for a validated announce, with the state after the
  calls of \<open>mark_path_unknown_state\<close>.
\<close>

definition announce_should_add :: "rns \<Rightarrow> real \<Rightarrow> transport \<Rightarrow> packet \<Rightarrow> bool \<times> transport" where
  "announce_should_add R now T p =
     (if destination_hash p \<notin> set (destinations T) \<and> hops p < PATHFINDER_M + 1 then
        (let emitted = announce_emitted R p; random_blob = announce_random_blob R p in
         case path_table T (destination_hash p) of
           Some pe \<Rightarrow>
             (let random_blobs = pt_randblobs pe in
              if hops p \<le> pt_hops pe then
                (let path_timebase = timebase_from_random_blobs random_blobs in
                 if random_blob \<notin> set random_blobs \<and> emitted > path_timebase
                 then (True, mark_path_unknown_state T (destination_hash p))
                 else (False, T))
              else
                (let path_expires = pt_expires pe;
                     path_announce_emitted = path_announce_emitted_loop emitted 0 random_blobs
                 in
                 if now \<ge> path_expires then
                   (if random_blob \<notin> set random_blobs
                    then (True, mark_path_unknown_state T (destination_hash p))
                    else (False, T))
                 else if emitted > path_announce_emitted then
                   (if random_blob \<notin> set random_blobs
                    then (True, mark_path_unknown_state T (destination_hash p))
                    else (False, T))
                 else if emitted = path_announce_emitted then
                   (if path_is_unresponsive T (destination_hash p)
                    then (True, T) else (False, T))
                 else (False, T)))
         | None \<Rightarrow> (True, T))
      else (False, T))"

text \<open>
  The decision table in the spec's words (section 4.5, item 2), with \<open>T\<close> the maximum
  timebase over the stored random blobs: the condition that is necessary and sufficient for
  fewer or equal hops, and the condition that is necessary for more hops.
\<close>

definition spec_admit_le_hops :: "rns \<Rightarrow> path_entry \<Rightarrow> packet \<Rightarrow> bool" where
  "spec_admit_le_hops R pe p =
     (announce_random_blob R p \<notin> set (pt_randblobs pe)
      \<and> announce_emitted R p > timebase_from_random_blobs (pt_randblobs pe))"

definition spec_admit_more_hops :: "rns \<Rightarrow> real \<Rightarrow> transport \<Rightarrow> path_entry \<Rightarrow> packet \<Rightarrow> bool" where
  "spec_admit_more_hops R now T pe p =
     ((now \<ge> pt_expires pe \<and> announce_random_blob R p \<notin> set (pt_randblobs pe))
      \<or> (announce_emitted R p > timebase_from_random_blobs (pt_randblobs pe)
          \<and> announce_random_blob R p \<notin> set (pt_randblobs pe))
      \<or> (announce_emitted R p = timebase_from_random_blobs (pt_randblobs pe)
          \<and> path_is_unresponsive T (destination_hash p)))"

section \<open>Random blobs and persistence\<close>

text \<open>
  The update of \<open>random_blobs\<close> on insertion.  \<open>append\<close> changes the list object that the old
  path entry (and a tunnel path learnt from the same announce) still refers to; the slice is
  a new list, which goes into the new path entry.  The result is the pair of the old object
  after the call and the new \<open>random_blobs\<close>.
\<close>

definition remember_random_blob :: "bytes \<Rightarrow> bytes list \<Rightarrow> bytes list \<times> bytes list" where
  "remember_random_blob random_blob random_blobs =
     (if random_blob \<notin> set random_blobs
      then (random_blobs @ [random_blob],
            last_n MAX_RANDOM_BLOBS (random_blobs @ [random_blob]))
      else (random_blobs, random_blobs))"

subsection \<open>Shared list objects\<close>

text \<open>
  A Python list is an object, and \<open>inbound\<close> puts the same \<open>random_blobs\<close> object into the
  new path entry and, when the receiving interface belongs to a tunnel, into the tunnel's
  stored path.  For one destination and one tunnel, the store below keeps the list objects
  by address, the address held by the path entry and the address held by the tunnel's stored
  path.  \<open>insert_announce via_tunnel\<close> is the insertion of an admitted announce
  (\<open>random_blobs = []\<close> for an unknown destination, the \<open>append\<close> in place and the slice
  into a new object, then the two table writes); \<open>restore_tunnel_path\<close> is what
  \<open>handle_tunnel\<close> does for a stored path that it restores: the path entry gets the new
  list \<open>list(set(...))\<close> of the tunnel's copy, whose order Python leaves open and whose
  elements are those of \<open>remdups\<close>.
\<close>

record blob_heap =
  objects :: "nat \<Rightarrow> bytes list"
  next_object :: nat
  path_blobs :: "nat option"
  tunnel_blobs :: "nat option"

definition insert_announce :: "bool \<Rightarrow> bytes \<Rightarrow> blob_heap \<Rightarrow> blob_heap" where
  "insert_announce via_tunnel random_blob H =
     (let (H1, r) =
            (case path_blobs H of
               Some r \<Rightarrow> (H, r)
             | None \<Rightarrow> (H\<lparr>objects := (objects H)(next_object H := []),
                            next_object := next_object H + 1\<rparr>, next_object H))
      in if random_blob \<notin> set (objects H1 r) then
           (let appended = fst (remember_random_blob random_blob (objects H1 r));
                r' = next_object H1;
                H2 = H1\<lparr>objects := (objects H1)
                          (r := appended,
                           r' := snd (remember_random_blob random_blob (objects H1 r))),
                        next_object := r' + 1\<rparr>
            in H2\<lparr>path_blobs := Some r',
                  tunnel_blobs := (if via_tunnel then Some r' else tunnel_blobs H2)\<rparr>)
         else H1\<lparr>path_blobs := Some r,
                  tunnel_blobs := (if via_tunnel then Some r else tunnel_blobs H1)\<rparr>)"

definition restore_tunnel_path :: "blob_heap \<Rightarrow> blob_heap" where
  "restore_tunnel_path H =
     (case tunnel_blobs H of
        Some t \<Rightarrow>
          (let r' = next_object H
           in H\<lparr>objects := (objects H)(r' := remdups (objects H t)),
                next_object := r' + 1, path_blobs := Some r'\<rparr>)
      | None \<Rightarrow> H)"

definition empty_heap :: blob_heap where
  "empty_heap = \<lparr>objects = (\<lambda>_. []), next_object = 0, path_blobs = None, tunnel_blobs = None\<rparr>"

definition stored_blobs :: "blob_heap \<Rightarrow> bytes list" where
  "stored_blobs H = (case path_blobs H of Some r \<Rightarrow> objects H r | None \<Rightarrow> [])"

subsection \<open>Persistence\<close>

record serialised_entry =
  se_destination_hash :: bytes
  se_timestamp :: real
  se_received_from :: bytes
  se_hops :: nat
  se_expires :: real
  se_random_blobs :: "bytes list"
  se_interface_hash :: "bytes option"
  se_packet_hash :: bytes

record serialised_tunnel =
  st_tunnel_id :: bytes
  st_interface_hash :: "bytes option"
  st_paths :: "serialised_entry list"
  st_expires :: real

definition find_interface_from_hash :: "rns \<Rightarrow> transport \<Rightarrow> bytes \<Rightarrow> interface option" where
  "find_interface_from_hash R T interface_hash =
     find (\<lambda>interface. get_hash R interface = interface_hash) (interfaces T)"

text \<open>
  \<open>save_path_table\<close>: the list \<open>serialised_destinations\<close> that is packed and written, for the
  keys of the path table in the dictionary's order; \<open>None\<close> when nothing is written because
  the instance is connected to a shared instance.
\<close>

definition save_path_table :: "rns \<Rightarrow> transport \<Rightarrow> bytes list \<Rightarrow> serialised_entry list option" where
  "save_path_table R T keys =
     (if \<not> is_connected_to_shared_instance T then
        Some (concat (map (\<lambda>destination_hash.
          case path_table T destination_hash of
            None \<Rightarrow> []
          | Some de \<Rightarrow>
              (let interface_hash = get_hash R (pt_rvcd_if de) in
               case find_interface_from_hash R T interface_hash of
                 None \<Rightarrow> []
               | Some interface \<Rightarrow>
                   [\<lparr>se_destination_hash = destination_hash,
                     se_timestamp = pt_timestamp de,
                     se_received_from = pt_next_hop de,
                     se_hops = pt_hops de,
                     se_expires = pt_expires de,
                     se_random_blobs = pt_randblobs de,
                     se_interface_hash = Some interface_hash,
                     se_packet_hash = pt_packet de\<rparr>])) keys))
      else None)"

text \<open>
  \<open>save_tunnel_table\<close>.  The loop over the paths assigns to the same variable \<open>expires\<close> that
  holds the tunnel's expiry, so a tunnel with paths is written with its last path's expiry.
\<close>

definition serialise_tunnel :: "rns \<Rightarrow> tunnel_entry \<Rightarrow> serialised_tunnel" where
  "serialise_tunnel R te =
     (let interface_hash = map_option (get_hash R) (tt_if te);
          serialised_paths =
            map (\<lambda>(destination_hash, de).
                   \<lparr>se_destination_hash = destination_hash,
                    se_timestamp = tp_timestamp de,
                    se_received_from = tp_next_hop de,
                    se_hops = tp_hops de,
                    se_expires = tp_expires de,
                    se_random_blobs = last_n PERSIST_RANDOM_BLOBS (tp_randblobs de),
                    se_interface_hash = interface_hash,
                    se_packet_hash = tp_packet de\<rparr>) (tt_paths te);
          expires = (if tt_paths te = [] then tt_expires te
                     else tp_expires (snd (last (tt_paths te))))
      in \<lparr>st_tunnel_id = tt_tunnel_id te, st_interface_hash = interface_hash,
          st_paths = serialised_paths, st_expires = expires\<rparr>)"

definition save_tunnel_table :: "rns \<Rightarrow> transport \<Rightarrow> serialised_tunnel list option" where
  "save_tunnel_table R T =
     (if \<not> is_connected_to_shared_instance T
      then Some (map (serialise_tunnel R) (tunnels T)) else None)"

section \<open>IFAC framing\<close>

text \<open>
  The cryptographic identity module is an external collaborator: \<open>sign key msg\<close> is
  \<open>identity.sign(msg)\<close> of the identity holding \<open>key\<close>, and \<open>hkdf n derive_from salt\<close> is
  \<open>RNS.Cryptography.hkdf(length=n, derive_from=..., salt=..., context=None)\<close>.  Both may
  raise, which is \<open>None\<close>.
\<close>

record crypto =
  sign :: "bytes \<Rightarrow> bytes \<Rightarrow> bytes option"
  hkdf :: "nat \<Rightarrow> bytes \<Rightarrow> bytes \<Rightarrow> bytes option"

text \<open>
  The masking loop of \<open>transmit\<close>, started at index \<open>i\<close>.  Reading \<open>mask[i]\<close> beyond the
  mask raises \<open>IndexError\<close>.
\<close>

fun mask_loop :: "nat \<Rightarrow> bytes \<Rightarrow> nat \<Rightarrow> bytes \<Rightarrow> bytes option" where
  "mask_loop sz msk i [] = Some []"
| "mask_loop sz msk i (byte # rest) =
     (if i = 0 then
        (if i < length msk
         then map_option ((#) ((byte XOR msk ! i) OR 0x80)) (mask_loop sz msk (i + 1) rest)
         else None)
      else if i = 1 \<or> i > sz + 1 then
        (if i < length msk
         then map_option ((#) (byte XOR msk ! i)) (mask_loop sz msk (i + 1) rest)
         else None)
      else map_option ((#) byte) (mask_loop sz msk (i + 1) rest))"

text \<open>
  \<open>Transport.transmit(interface, raw)\<close>: the bytes handed to
  \<open>interface.process_outgoing\<close>, or \<open>None\<close> when an exception was caught and logged and
  nothing was sent.
\<close>

definition transmit :: "crypto \<Rightarrow> interface \<Rightarrow> bytes \<Rightarrow> bytes option" where
  "transmit C interface bs =
     (case ifac_identity interface of
        Some key \<Rightarrow>
          (case sign C key bs of
             None \<Rightarrow> None
           | Some signature \<Rightarrow>
               (let ifac = last_n (ifac_size interface) signature in
                case hkdf C (length bs + ifac_size interface) ifac (ifac_key interface) of
                  None \<Rightarrow> None
                | Some msk \<Rightarrow>
                    (case bs of
                       b0 # b1 # rest \<Rightarrow>
                         mask_loop (ifac_size interface) msk 0
                           ([b0 OR 0x80, b1] @ ifac @ rest)
                     | _ \<Rightarrow> None)))
      | None \<Rightarrow> Some bs)"

text \<open>The unmasking loop of \<open>inbound\<close>, started at index \<open>i\<close>.\<close>

fun unmask_loop :: "nat \<Rightarrow> bytes \<Rightarrow> nat \<Rightarrow> bytes \<Rightarrow> bytes option" where
  "unmask_loop sz msk i [] = Some []"
| "unmask_loop sz msk i (byte # rest) =
     (if i \<le> 1 \<or> i > sz + 1 then
        (if i < length msk
         then map_option ((#) (byte XOR msk ! i)) (unmask_loop sz msk (i + 1) rest)
         else None)
      else map_option ((#) byte) (unmask_loop sz msk (i + 1) rest))"

text \<open>
  The IFAC prologue of \<open>Transport.inbound(raw, interface)\<close>, up to the point where the
  packet is unpacked: the call returns early (\<open>Dropped\<close>), an exception of the crypto module
  escapes (\<open>Raised\<close>), or processing goes on with the cleaned bytes (\<open>Accepted\<close>).
\<close>

datatype ifac_result = Raised | Dropped | Accepted bytes

definition inbound_ifac :: "crypto \<Rightarrow> interface option \<Rightarrow> bytes \<Rightarrow> ifac_result" where
  "inbound_ifac C interface bs =
     (if length bs > 2 then
        (case (case interface of None \<Rightarrow> None
               | Some i \<Rightarrow> map_option (Pair i) (ifac_identity i)) of
           Some (i, key) \<Rightarrow>
             (if hd bs AND 0x80 = 0x80 then
                (if length bs > 2 + ifac_size i then
                   (let ifac = slice 2 (2 + ifac_size i) bs in
                    case hkdf C (length bs) ifac (ifac_key i) of
                      None \<Rightarrow> Raised
                    | Some msk \<Rightarrow>
                        (case unmask_loop (ifac_size i) msk 0 bs of
                           Some (u0 # u1 # urest) \<Rightarrow>
                             (let new_header = [u0 AND 0x7f, u1];
                                  new_raw = new_header @ drop (ifac_size i) urest in
                              case sign C key new_raw of
                                None \<Rightarrow> Raised
                              | Some signature \<Rightarrow>
                                  (if ifac = last_n (ifac_size i) signature
                                   then Accepted new_raw else Dropped))
                         | _ \<Rightarrow> Raised))
                 else Dropped)
              else Dropped)
         | None \<Rightarrow> (if hd bs AND 0x80 = 0x80 then Dropped else Accepted bs))
      else Dropped)"

subsection \<open>Example state and packets\<close>

text \<open>
  A toy crypto module for the examples: the signature is four copies of the byte sum of
  key and message, the key stream repeats one byte derived from its inputs.
\<close>

definition example_crypto :: crypto where
  "example_crypto =
     \<lparr>sign = (\<lambda>key msg. Some (replicate 4 (fold (+) (key @ msg) 0))),
      hkdf = (\<lambda>n derive_from salt.
                if n < 1 then None else Some (replicate n (fold (+) (derive_from @ salt) 0x5a)))\<rparr>"

definition ifac_if :: interface where
  "ifac_if = \<lparr>if_name = ''IFAC1'', bitrate = Some 1000, HW_MTU = Some 500,
          AUTOCONFIGURE_MTU = False, FIXED_MTU = False,
          ifac_identity = Some [0x07], ifac_key = [0x01, 0x02], ifac_size = 2\<rparr>"

definition if1 :: interface where
  "if1 = \<lparr>if_name = ''IF1'', bitrate = Some 1000, HW_MTU = Some 500,
          AUTOCONFIGURE_MTU = False, FIXED_MTU = False,
          ifac_identity = None, ifac_key = [], ifac_size = 0\<rparr>"

definition if2 :: interface where
  "if2 = if1\<lparr>if_name := ''IF2''\<rparr>"

definition hash_aa :: bytes where "hash_aa = replicate 16 0xaa"
definition hash_bb :: bytes where "hash_bb = replicate 16 0xbb"
definition hash_cc :: bytes where "hash_cc = replicate 16 0xcc"

definition transport0 :: transport where
  "transport0 =
     \<lparr>identity_hash = hash_cc, is_connected_to_shared_instance = False,
      transport_enabled = True, interfaces = [if1, if2], local_client_interfaces = [],
      destinations = [], pending_links = [],
      packet_hashlist = {}, packet_hashlist_prev = {},
      path_table = Map.empty, reverse_table = Map.empty, link_table = Map.empty,
      path_states = Map.empty, tunnels = [], transmitted = []\<rparr>"

definition packet0 :: packet where
  "packet0 =
     \<lparr>raw = [0x00, 0x00] @ hash_aa @ [0x00, 0x01], packet_hash = replicate 32 0x11,
      truncated_hash = replicate 16 0x11, packet_type = DATA, pkt_context = NONE,
      header_type = HEADER_1, flags = 0, transport_type = BROADCAST, transport_id = None,
      destination_hash = hash_aa, destination_type = SINGLE, hops = 1, data = [0x01],
      receiving_interface = Some if1\<rparr>"

text \<open>A SINGLE announce whose hash is already in the current hashlist generation.\<close>

definition seen_announce :: packet where
  "seen_announce = packet0\<lparr>packet_type := ANNOUNCE\<rparr>"

definition seen_state :: transport where
  "seen_state = transport0\<lparr>packet_hashlist := {replicate 32 0x11}\<rparr>"

text \<open>An instance behind a shared instance, and a PLAIN packet three hops away whose
  hash the local hashlist happens to hold.\<close>

definition shared_state :: transport where
  "shared_state = transport0\<lparr>is_connected_to_shared_instance := True,
                              packet_hashlist := {replicate 32 0x11}\<rparr>"

definition plain_far_packet :: packet where
  "plain_far_packet = packet0\<lparr>destination_type := PLAIN, hops := 3,
                               transport_id := Some hash_bb\<rparr>"

text \<open>
  A path three hops long to \<open>aa\<dots>aa\<close> through next hop \<open>bb\<dots>bb\<close> on \<open>IF1\<close>, last
  confirmed at time 5 (scenario S2 of the spec), and the same path one hop long (S1).
\<close>

definition path_aa :: path_entry where
  "path_aa = \<lparr>pt_timestamp = 5, pt_next_hop = hash_bb, pt_hops = 3, pt_expires = 1000,
              pt_randblobs = [], pt_rvcd_if = if1, pt_packet = replicate 32 0x33\<rparr>"

definition multi_hop_state :: transport where
  "multi_hop_state = transport0\<lparr>path_table := [hash_aa \<mapsto> path_aa]\<rparr>"

definition direct_state :: transport where
  "direct_state = transport0\<lparr>path_table := [hash_aa \<mapsto> path_aa\<lparr>pt_hops := 1\<rparr>]\<rparr>"

text \<open>A HEADER_2 DATA packet for \<open>aa\<dots>aa\<close> addressed to this instance as next hop, as
  received on \<open>IF2\<close>, and a LINKREQUEST in transit whose data ends in three bytes of MTU
  signalling.\<close>

definition transit_packet :: packet where
  "transit_packet =
     \<lparr>raw = [0x50, 0x01] @ hash_cc @ hash_aa @ [0x00, 0x01], packet_hash = replicate 32 0x44,
      truncated_hash = replicate 16 0x44, packet_type = DATA, pkt_context = NONE,
      header_type = HEADER_2, flags = 0x50, transport_type = TRANSPORT,
      transport_id = Some hash_cc, destination_hash = hash_aa, destination_type = SINGLE,
      hops = 2, data = [0x01], receiving_interface = Some if2\<rparr>"

definition lr_packet :: packet where
  "lr_packet =
     \<lparr>raw = [0x52, 0x01] @ hash_cc @ hash_aa @ [0x00] @ replicate 64 0x08 @ [0x00, 0x03, 0xe8],
      packet_hash = replicate 32 0x55, truncated_hash = replicate 16 0x55,
      packet_type = LINKREQUEST, pkt_context = NONE,
      header_type = HEADER_2, flags = 0x52, transport_type = TRANSPORT,
      transport_id = Some hash_cc, destination_hash = hash_aa, destination_type = SINGLE,
      hops = 2, data = replicate 64 0x08 @ [0x00, 0x03, 0xe8],
      receiving_interface = Some if2\<rparr>"

text \<open>
  Example values for the external constants and functions: the sizes of the reference
  implementation, an MTU read from the last three bytes of a link-request's data, and a toy
  signature scheme in which the signature of \<open>msg\<close> under \<open>pub\<close> is 64 copies of the byte sum
  of both.
\<close>

definition example_rns :: rns where
  "example_rns =
     \<lparr>HASHLENGTH = 256, TRUNCATED_HASHLENGTH = 128, KEYSIZE = 512, NAME_HASH_LENGTH = 80, SIGLENGTH = 512,
      ECPUBSIZE = 64, LINK_MTU_SIZE = 3, MTU = 500, ESTABLISHMENT_TIMEOUT_PER_HOP = 6,
      mtu_from_lr_packet =
        (\<lambda>p. if length (data p) = 67 then Some (from_bytes_big (drop 64 (data p))) else None),
      mode_from_lr_packet = (\<lambda>p. 1),
      mtu_from_lp_packet =
        (\<lambda>p. if length (data p) = 99 then Some (from_bytes_big (drop 96 (data p))) else None),
      mode_from_lp_packet = (\<lambda>p. 1),
      signalling_bytes =
        (\<lambda>mtu mode. case mtu of None \<Rightarrow> None
           | Some m \<Rightarrow> Some [of_nat (m div 65536), of_nat (m div 256), of_nat m]),
      link_id_from_lr_packet = (\<lambda>p. truncated_hash p),
      recall = (\<lambda>h. if h = hash_aa then Some (replicate 64 0x09) else None),
      validate = (\<lambda>pub signature msg. signature = replicate 64 (fold (+) (pub @ msg) 0)),
      get_hash = (\<lambda>i. map (\<lambda>c. of_nat (of_char c)) (if_name i)),
      cached = (\<lambda>h. False)\<rparr>"

text \<open>
  The states reached by forwarding the two packets above at time 100, a link-request proof
  for the link and a proof for the DATA packet, both arriving on \<open>IF1\<close>.
\<close>

definition state_after :: "flow option \<Rightarrow> transport option" where
  "state_after result = map_option flow_state result"

definition forwarded_state :: transport where
  "forwarded_state =
     (case inbound_transit example_rns 100 multi_hop_state transit_packet of
        Some f \<Rightarrow> flow_state f | None \<Rightarrow> multi_hop_state)"

definition link_state :: transport where
  "link_state =
     (case inbound_transit example_rns 100 multi_hop_state lr_packet of
        Some f \<Rightarrow> flow_state f | None \<Rightarrow> multi_hop_state)"

definition lr_link_entry :: link_entry where
  "lr_link_entry =
     \<lparr>lt_timestamp = 100, lt_nh_trid = hash_bb, lt_nh_if = if1, lt_rem_hops = 3,
      lt_rcvd_if = Some if2, lt_hops = 2, lt_dsthash = hash_aa, lt_validated = False,
      lt_proof_tmo = 122\<rparr>"

definition fwd_reverse_entry :: reverse_entry where
  "fwd_reverse_entry = \<lparr>rt_rcvd_if = Some if2, rt_outb_if = if1, rt_timestamp = 100\<rparr>"

definition proof_packet :: packet where
  "proof_packet =
     \<lparr>raw = [0x03, 0x02] @ replicate 16 0x44 @ [0x00] @ replicate 64 0x0a,
      packet_hash = replicate 32 0x66, truncated_hash = replicate 16 0x66,
      packet_type = PROOF, pkt_context = NONE,
      header_type = HEADER_1, flags = 0x03, transport_type = BROADCAST,
      transport_id = None, destination_hash = replicate 16 0x44, destination_type = SINGLE,
      hops = 3, data = replicate 64 0x0a, receiving_interface = Some if1\<rparr>"

definition lrproof_packet :: packet where
  "lrproof_packet =
     \<lparr>raw = [0x0f, 0x02] @ replicate 16 0x55 @ [0xff] @ replicate 64 0xd0 @ replicate 32 0x01,
      packet_hash = replicate 32 0x77, truncated_hash = replicate 16 0x77,
      packet_type = PROOF, pkt_context = LRPROOF,
      header_type = HEADER_1, flags = 0x0f, transport_type = BROADCAST,
      transport_id = None, destination_hash = replicate 16 0x55, destination_type = LINK,
      hops = 3, data = replicate 64 0xd0 @ replicate 32 0x01,
      receiving_interface = Some if1\<rparr>"

text \<open>
  A path one hop long whose stored blobs carry the timebases 5 and 9, marked unresponsive, and
  an announce three hops away that replays the blob with timebase 5.
\<close>

definition blob_5 :: bytes where "blob_5 = replicate 9 0x00 @ [0x05]"
definition blob_9 :: bytes where "blob_9 = replicate 9 0x00 @ [0x09]"

definition unresponsive_path :: path_entry where
  "unresponsive_path = path_aa\<lparr>pt_hops := 1, pt_randblobs := [blob_5, blob_9]\<rparr>"

definition unresponsive_state :: transport where
  "unresponsive_state =
     transport0\<lparr>path_table := [hash_aa \<mapsto> unresponsive_path],
                path_states := [hash_aa \<mapsto> STATE_UNRESPONSIVE]\<rparr>"

definition replayed_announce :: packet where
  "replayed_announce =
     packet0\<lparr>packet_type := ANNOUNCE, hops := 3,
             data := replicate 64 0x0c @ replicate 10 0x0d @ blob_5 @ replicate 64 0x0e\<rparr>"

text \<open>A path entry that has heard 33 different announces.\<close>

definition blobs_33 :: "bytes list" where
  "blobs_33 = map (\<lambda>n. replicate 9 0x00 @ [of_nat n]) [0..<33]"

definition busy_state :: transport where
  "busy_state = transport0\<lparr>path_table := [hash_aa \<mapsto> path_aa\<lparr>pt_randblobs := blobs_33\<rparr>]\<rparr>"

section \<open>Theorems\<close>

subsection \<open>Packet filter and hashlist\<close>

text \<open>
  Claim C10.  When this instance is connected to a shared instance, \<open>packet_filter\<close> admits
  every packet, whatever the hashlists, the transport id and the PLAIN/GROUP hop rules say, and
  \<open>add_packet_hash\<close> leaves the state as it is: the hashlist gets no new entry.
\<close>

theorem shared_instance_filter_delegated:
  assumes "is_connected_to_shared_instance T"
  shows "packet_filter T p \<and> add_packet_hash T h = T
         \<and> packet_filter (T\<lparr>packet_hashlist := cur, packet_hashlist_prev := prev\<rparr>) p"
  using assms by (simp add: packet_filter_def add_packet_hash_def)

theorem shared_instance_filter_delegated_witness:
  "is_connected_to_shared_instance shared_state
   \<and> packet_hash plain_far_packet \<in> packet_hashlist shared_state
   \<and> packet_filter shared_state plain_far_packet
   \<and> add_packet_hash shared_state (replicate 32 0x22) = shared_state
   \<and> packet_filter (shared_state\<lparr>packet_hashlist := {}, packet_hashlist_prev := {}\<rparr>)
        plain_far_packet"
proof -
  have c: "is_connected_to_shared_instance shared_state"
    by (simp add: shared_state_def transport0_def)
  have m: "packet_hash plain_far_packet \<in> packet_hashlist shared_state"
    by (simp add: shared_state_def transport0_def plain_far_packet_def packet0_def)
  from c m shared_instance_filter_delegated [OF c, of plain_far_packet "replicate 32 0x22" "{}" "{}"]
  show ?thesis by simp
qed

text \<open>
  Claim C2, as the spec states it, fails: a SINGLE announce whose hash is already in the
  current hashlist generation reaches the hashlist test and is admitted.
\<close>

theorem seen_single_announce_admitted:
  "reaches_hashlist_test seen_state seen_announce
   \<and> packet_hash seen_announce \<in> packet_hashlist seen_state
   \<and> packet_filter seen_state seen_announce
   \<and> \<not> spec_hashlist_admission seen_state seen_announce"
  by (simp add: reaches_hashlist_test_def packet_filter_def spec_hashlist_admission_def
      seen_state_def seen_announce_def transport0_def packet0_def)

text \<open>
  An ANNOUNCE for a LINK destination whose hash is new also passes the hashlist test,
  although every test of \<open>packet_filter\<close> for an announce that is not SINGLE drops it as
  invalid; once its hash is in the hashlist, the same announce is dropped.
\<close>

lemma unseen_link_announce_admitted:
  "reaches_hashlist_test transport0 (seen_announce\<lparr>destination_type := LINK\<rparr>)
   \<and> packet_filter transport0 (seen_announce\<lparr>destination_type := LINK\<rparr>)
   \<and> \<not> packet_filter seen_state (seen_announce\<lparr>destination_type := LINK\<rparr>)"
  by (simp add: reaches_hashlist_test_def packet_filter_def seen_state_def seen_announce_def
      transport0_def packet0_def)

text \<open>
  Claim C2, amended.  Of the packets that reach the hashlist test of \<open>packet_filter\<close>: a
  packet that is not an ANNOUNCE is admitted iff its hash is in neither hashlist generation,
  and an ANNOUNCE for a SINGLE destination is admitted whether or not its hash has been seen.
  (Nothing is said of an ANNOUNCE for a destination that is not SINGLE.)
\<close>

theorem packet_filter_hashlist_test:
  assumes "reaches_hashlist_test T p"
    and "packet_type p = ANNOUNCE \<longrightarrow> destination_type p = SINGLE"
  shows "packet_filter T p =
     ((packet_hash p \<notin> packet_hashlist T \<and> packet_hash p \<notin> packet_hashlist_prev T)
      \<or> packet_type p = ANNOUNCE)"
  using assms by (auto simp: reaches_hashlist_test_def packet_filter_def)

theorem packet_filter_hashlist_test_witness:
  "reaches_hashlist_test seen_state (seen_announce\<lparr>packet_type := DATA\<rparr>)
   \<and> \<not> packet_filter seen_state (seen_announce\<lparr>packet_type := DATA\<rparr>)
   \<and> reaches_hashlist_test transport0 packet0 \<and> packet_filter transport0 packet0
   \<and> reaches_hashlist_test seen_state seen_announce \<and> packet_filter seen_state seen_announce"
proof -
  have r1: "reaches_hashlist_test seen_state (seen_announce\<lparr>packet_type := DATA\<rparr>)"
    by (simp add: reaches_hashlist_test_def seen_state_def seen_announce_def transport0_def
        packet0_def)
  have s1: "packet_type (seen_announce\<lparr>packet_type := DATA\<rparr>) = ANNOUNCE
      \<longrightarrow> destination_type (seen_announce\<lparr>packet_type := DATA\<rparr>) = SINGLE"
    by simp
  have r2: "reaches_hashlist_test transport0 packet0"
    by (simp add: reaches_hashlist_test_def transport0_def packet0_def)
  have s2: "packet_type packet0 = ANNOUNCE \<longrightarrow> destination_type packet0 = SINGLE"
    by (simp add: packet0_def)
  have r3: "reaches_hashlist_test seen_state seen_announce"
    by (simp add: reaches_hashlist_test_def seen_state_def seen_announce_def transport0_def
        packet0_def)
  have s3: "packet_type seen_announce = ANNOUNCE \<longrightarrow> destination_type seen_announce = SINGLE"
    by (simp add: seen_announce_def packet0_def)
  have "\<not> packet_filter seen_state (seen_announce\<lparr>packet_type := DATA\<rparr>)"
    using packet_filter_hashlist_test [OF r1 s1]
    by (simp add: seen_state_def seen_announce_def transport0_def packet0_def)
  moreover have "packet_filter transport0 packet0"
    using packet_filter_hashlist_test [OF r2 s2] by (simp add: transport0_def packet0_def)
  moreover have "packet_filter seen_state seen_announce"
    using packet_filter_hashlist_test [OF r3 s3] by (simp add: seen_announce_def)
  ultimately show ?thesis using r1 r2 r3 by simp
qed

subsection \<open>Header bytes\<close>

lemma low_nibble_le: "(f::nat) AND 15 \<le> 15"
proof -
  have "int f AND 15 \<le> 15" by (rule AND_upper2) simp
  then have "int (f AND 15) \<le> int 15" by (simp add: of_nat_and_eq)
  then show ?thesis by linarith
qed

lemma or_byte_fits:
  assumes "(a::nat) < 256" and "(b::nat) < 256"
  shows "a OR b < 256"
proof -
  have "int a OR int b < 2 ^ 8"
  proof (rule OR_upper)
    show "0 \<le> int a" by simp
    show "int a < 2 ^ 8" using assms(1) by simp
    show "int b < 2 ^ 8" using assms(2) by simp
  qed
  then have "int (a OR b) < int 256" by (simp add: of_nat_or_eq)
  then show ?thesis by linarith
qed

lemma header_flags_fit:
  assumes "(h::nat) < 256" and "(t::nat) < 256"
  shows "h OR t OR (f AND 15) < 256"
proof -
  have "f AND 15 < 256" using low_nibble_le [of f] by simp
  then show ?thesis using assms by (intro or_byte_fits)
qed

lemma transport_header_flags_fit: "transport_header_flags p < 256"
  unfolding transport_header_flags_def
  by (rule header_flags_fit) (simp_all add: HEADER_2_def TRANSPORT_def)

lemma hop_byte_update:
  assumes "2 \<le> length bs"
  shows "slice 0 (Suc 0) bs @ h # drop 2 bs = bs[Suc 0 := h]"
proof -
  from assms obtain b0 b1 rest where "bs = b0 # b1 # rest"
    by (cases bs; cases "tl bs") auto
  then show ?thesis by (simp add: slice_def)
qed

subsection \<open>Outbound dispatch over a known path\<close>

lemma insert_into_transport_frame:
  assumes h1: "header_type p = HEADER_1"
  shows "insert_into_transport now T p pe =
    Dispatched
      (T\<lparr>transmitted := transmitted T
            @ [(pt_rvcd_if pe, of_nat (transport_header_flags p) # slice 1 2 (raw p)
                 @ pt_next_hop pe @ drop 2 (raw p))],
         path_table := (path_table T)(destination_hash p \<mapsto> pe\<lparr>pt_timestamp := now\<rparr>)\<rparr>)
      True"
  using h1 transport_header_flags_fit [of p]
  by (simp add: insert_into_transport_def struct_pack_B_def)

text \<open>
  Claim C7, as stated for every such packet, fails on a packet that already has a HEADER_2
  header: both branches send only under \<open>packet.header_type == HEADER_1\<close>, so nothing is
  transmitted and \<open>sent\<close> stays false.
\<close>

theorem outbound_header_2_not_sent:
  "outbound 100 multi_hop_state transit_packet = Dispatched multi_hop_state False"
  by (simp add: outbound_def insert_into_transport_def multi_hop_state_def transit_packet_def
      transport0_def path_aa_def HEADER_1_def HEADER_2_def)

text \<open>
  Claim C7, amended.  For a locally originated HEADER_1 packet that is not an ANNOUNCE and not
  for a PLAIN or GROUP destination, whose destination has a path entry with \<open>hops > 1\<close> (or
  \<open>hops = 1\<close> behind a shared instance), with at least its two header bytes and a 16-byte
  stored next hop: \<open>outbound\<close> reports \<open>sent\<close> and calls \<open>transmit\<close> exactly once, on the
  path's interface, with a frame whose first byte is
  \<open>(HEADER_2 << 6) | (TRANSPORT << 4) | (flags & 0x0f)\<close>, whose second byte is the original
  hop byte, whose bytes 2..18 are the stored next hop, and whose rest is the original packet
  from byte 2 on.
\<close>

theorem outbound_inserts_transport_header:
  assumes ty: "packet_type p \<noteq> ANNOUNCE" "destination_type p \<noteq> PLAIN"
      "destination_type p \<noteq> GROUP"
    and path: "path_table T (destination_hash p) = Some pe"
    and far: "pt_hops pe > 1 \<or> (pt_hops pe = 1 \<and> is_connected_to_shared_instance T)"
    and h1: "header_type p = HEADER_1"
    and len: "2 \<le> length (raw p)" "length (pt_next_hop pe) = 16"
  shows "\<exists>T' frame. outbound now T p = Dispatched T' True
           \<and> transmitted T' = transmitted T @ [(pt_rvcd_if pe, frame)]
           \<and> frame ! 0 = of_nat (push_bit 6 HEADER_2 OR push_bit 4 TRANSPORT OR (flags p AND 15))
           \<and> frame ! 1 = raw p ! 1
           \<and> slice 2 18 frame = pt_next_hop pe
           \<and> drop 18 frame = drop 2 (raw p)"
proof -
  define frame where "frame = of_nat (transport_header_flags p) # slice 1 2 (raw p)
      @ pt_next_hop pe @ drop 2 (raw p)"
  define T' where "T' = T\<lparr>transmitted := transmitted T @ [(pt_rvcd_if pe, frame)],
      path_table := (path_table T)(destination_hash p \<mapsto> pe\<lparr>pt_timestamp := now\<rparr>)\<rparr>"
  have out: "outbound now T p = Dispatched T' True"
    using ty path far insert_into_transport_frame [OF h1, of now T pe]
    by (auto simp: outbound_def T'_def frame_def)
  from len(1) obtain b0 b1 rest where r: "raw p = b0 # b1 # rest"
    by (cases "raw p"; cases "tl (raw p)") auto
  have f: "frame = of_nat (transport_header_flags p) # b1 # pt_next_hop pe @ rest"
    by (simp add: frame_def r slice_def)
  have "frame ! 0 = of_nat (push_bit 6 HEADER_2 OR push_bit 4 TRANSPORT OR (flags p AND 15))"
    by (simp add: f transport_header_flags_def)
  moreover have "frame ! 1 = raw p ! 1" by (simp add: f r)
  moreover have "slice 2 18 frame = pt_next_hop pe" using len(2) by (simp add: f slice_def)
  moreover have "drop 18 frame = drop 2 (raw p)" using len(2) by (simp add: f r)
  moreover have "transmitted T' = transmitted T @ [(pt_rvcd_if pe, frame)]"
    by (simp add: T'_def)
  ultimately show ?thesis using out by blast
qed

theorem outbound_inserts_transport_header_witness:
  "\<exists>T' frame. outbound 100 multi_hop_state packet0 = Dispatched T' True
      \<and> transmitted T' = transmitted multi_hop_state @ [(pt_rvcd_if path_aa, frame)]
      \<and> frame ! 0 = of_nat (push_bit 6 HEADER_2 OR push_bit 4 TRANSPORT OR (flags packet0 AND 15))
      \<and> frame ! 1 = raw packet0 ! 1
      \<and> slice 2 18 frame = pt_next_hop path_aa
      \<and> drop 18 frame = drop 2 (raw packet0)"
  by (rule outbound_inserts_transport_header)
     (simp_all add: multi_hop_state_def packet0_def path_aa_def transport0_def hash_bb_def
        HEADER_1_def)

text \<open>
  The direct branch, in general: the packet's bytes go out unmodified on the path's interface,
  and nothing else of the state changes; in particular the path entry keeps its timestamp.
\<close>

lemma outbound_direct:
  assumes ty: "packet_type p \<noteq> ANNOUNCE" "destination_type p \<noteq> PLAIN"
      "destination_type p \<noteq> GROUP"
    and path: "path_table T (destination_hash p) = Some pe"
    and near: "pt_hops pe \<le> 1" "\<not> is_connected_to_shared_instance T"
  shows "outbound now T p
         = Dispatched (T\<lparr>transmitted := transmitted T @ [(pt_rvcd_if pe, raw p)]\<rparr>) True"
  using assms by (simp add: outbound_def)

text \<open>
  Claim C8.  The code does not do what the claim says: at time 100, a DATA packet for a
  destination one hop away is transmitted unmodified on \<open>IF1\<close>, but the path entry still
  carries the timestamp 5 afterwards.  The two sibling branches of \<open>outbound\<close> and the transit
  branch of \<open>inbound\<close> do refresh the timestamp.
\<close>

theorem outbound_direct_timestamp_stale:
  "outbound 100 direct_state packet0
     = Dispatched (direct_state\<lparr>transmitted := [(if1, raw packet0)]\<rparr>) True
   \<and> map_option pt_timestamp
        (path_table (direct_state\<lparr>transmitted := [(if1, raw packet0)]\<rparr>) hash_aa) = Some 5"
  by (simp add: outbound_def direct_state_def packet0_def transport0_def path_aa_def)

subsection \<open>Inbound: transit forwarding\<close>

text \<open>
  Claim C4, as stated for every transit packet that is not an ANNOUNCE, fails on a
  LINKREQUEST that carries MTU signalling: with three remaining hops the frame sent on \<open>IF1\<close>
  has the refreshed hop byte and the new next hop, and has lost its last three bytes, because
  \<open>IF1\<close> does not autoconfigure its MTU.
\<close>

theorem transit_linkrequest_mtu_stripped:
  "map_option transmitted (state_after (inbound_transit example_rns 100 multi_hop_state lr_packet))
     = Some [(if1, [0x52, 0x02] @ hash_bb @ hash_aa @ [0x00] @ replicate 64 0x08)]
   \<and> drop 18 (raw lr_packet) = hash_aa @ [0x00] @ replicate 64 0x08 @ [0x00, 0x03, 0xe8]"
  by code_simp

text \<open>
  Claim C4, amended.  Let this instance transport the packet (transport enabled, or the
  packet is from or for a local client) and not serve it from its cache; let the packet be
  neither an ANNOUNCE nor a LINKREQUEST and carry this instance's identity hash as transport
  id, let its destination have a path entry with a 16-byte next hop, let the packet have at
  least 18 bytes and its hop count fit a byte.  Then
  \<open>inbound\<close> calls \<open>transmit\<close> once, on the path's interface, records the reverse entry
  (receiving interface, outbound interface, now) under the packet's truncated hash, and the
  frame depends on the stored remaining hops: above 1, the packet with its hop byte refreshed
  and bytes 2..18 replaced by the stored next hop (the first byte, hence HEADER_2, unchanged);
  at 1, the byte \<open>(HEADER_1 << 6) | (BROADCAST << 4) | (flags & 0x0f)\<close>, the hop byte and the
  packet from byte 18 on; at 0, the packet with only its hop byte refreshed.  (For a
  LINKREQUEST the frame is then adjusted by the link-MTU handling and a link entry is recorded
  instead of a reverse entry.)
\<close>

theorem transit_forward_rewrites_frame:
  assumes gate: "transport_enabled T \<or> from_local_client T p \<or> for_local_client T p
            \<or> for_local_client_link T p"
      "\<not> (pkt_context p = CACHE_REQUEST \<and> cache_request_packet R p)"
    and tid: "transport_id p = Some (identity_hash T)"
    and ty: "packet_type p \<noteq> ANNOUNCE" "packet_type p \<noteq> LINKREQUEST"
    and path: "path_table T (destination_hash p) = Some pe"
    and hops: "hops p < 256"
    and len: "TRUNCATED_HASHLENGTH R = 128" "length (pt_next_hop pe) = 16" "18 \<le> length (raw p)"
  shows "\<exists>T' frame. inbound_transit R now T p = Some (Continues T')
      \<and> transmitted T' = transmitted T @ [(pt_rvcd_if pe, frame)]
      \<and> reverse_table T' = (reverse_table T)(truncated_hash p \<mapsto>
            \<lparr>rt_rcvd_if = receiving_interface p, rt_outb_if = pt_rvcd_if pe,
             rt_timestamp = now\<rparr>)
      \<and> (if pt_hops pe > 1 then
            length frame = length (raw p) \<and> frame ! 0 = raw p ! 0
            \<and> frame ! 1 = of_nat (hops p) \<and> slice 2 18 frame = pt_next_hop pe
            \<and> drop 18 frame = drop 18 (raw p)
          else if pt_hops pe = 1 then
            frame = [of_nat (push_bit 6 HEADER_1 OR push_bit 4 BROADCAST OR (flags p AND 15)),
                     of_nat (hops p)] @ drop 18 (raw p)
          else frame = (raw p)[1 := of_nat (hops p)])"
proof -
  from len(3) obtain b0 b1 rest where r: "raw p = b0 # b1 # rest" and lrest: "16 \<le> length rest"
    by (cases "raw p"; cases "tl (raw p)") auto
  define frame where "frame =
     (if pt_hops pe > 1 then [b0, of_nat (hops p)] @ pt_next_hop pe @ drop 16 rest
      else if pt_hops pe = 1 then
        [of_nat (push_bit 6 HEADER_1 OR push_bit 4 BROADCAST OR (flags p AND 15)),
         of_nat (hops p)] @ drop 16 rest
      else [b0, of_nat (hops p)] @ rest)"
  have fl: "push_bit 6 HEADER_1 OR push_bit 4 BROADCAST OR (flags p AND 15) < 256"
    by (rule header_flags_fit) (simp_all add: HEADER_1_def BROADCAST_def)
  have nr: "transit_new_raw R p pe = Some frame"
    using hops fl len(1)
    by (simp add: transit_new_raw_def struct_pack_B_def frame_def r slice_def Let_def)
  define T' where "T' = T\<lparr>reverse_table := (reverse_table T)(truncated_hash p \<mapsto>
            \<lparr>rt_rcvd_if = receiving_interface p, rt_outb_if = pt_rvcd_if pe,
             rt_timestamp = now\<rparr>),
        transmitted := transmitted T @ [(pt_rvcd_if pe, frame)],
        path_table := (path_table T)(destination_hash p \<mapsto> pe\<lparr>pt_timestamp := now\<rparr>)\<rparr>"
  have "transit_forward R now T p = Continues T'"
    using tid ty path nr by (simp add: transit_forward_def call_transmit_def T'_def Let_def)
  then have tf: "inbound_transit R now T p = Some (Continues T')"
    using gate tid by (auto simp: inbound_transit_def Let_def)
  have shape: "(if pt_hops pe > 1 then
            length frame = length (raw p) \<and> frame ! 0 = raw p ! 0
            \<and> frame ! 1 = of_nat (hops p) \<and> slice 2 18 frame = pt_next_hop pe
            \<and> drop 18 frame = drop 18 (raw p)
          else if pt_hops pe = 1 then
            frame = [of_nat (push_bit 6 HEADER_1 OR push_bit 4 BROADCAST OR (flags p AND 15)),
                     of_nat (hops p)] @ drop 18 (raw p)
          else frame = (raw p)[1 := of_nat (hops p)])"
    using len(2) lrest by (simp add: frame_def r slice_def)
  have "transmitted T' = transmitted T @ [(pt_rvcd_if pe, frame)]" by (simp add: T'_def)
  moreover have "reverse_table T' = (reverse_table T)(truncated_hash p \<mapsto>
            \<lparr>rt_rcvd_if = receiving_interface p, rt_outb_if = pt_rvcd_if pe,
             rt_timestamp = now\<rparr>)" by (simp add: T'_def)
  ultimately show ?thesis using tf shape by blast
qed

theorem transit_forward_rewrites_frame_witness:
  "\<exists>T' frame. inbound_transit example_rns 100 multi_hop_state transit_packet
                 = Some (Continues T')
      \<and> transmitted T' = transmitted multi_hop_state @ [(pt_rvcd_if path_aa, frame)]
      \<and> reverse_table T' = (reverse_table multi_hop_state)(truncated_hash transit_packet \<mapsto>
            \<lparr>rt_rcvd_if = receiving_interface transit_packet, rt_outb_if = pt_rvcd_if path_aa,
             rt_timestamp = 100\<rparr>)
      \<and> (if pt_hops path_aa > 1 then
            length frame = length (raw transit_packet) \<and> frame ! 0 = raw transit_packet ! 0
            \<and> frame ! 1 = of_nat (hops transit_packet) \<and> slice 2 18 frame = pt_next_hop path_aa
            \<and> drop 18 frame = drop 18 (raw transit_packet)
          else if pt_hops path_aa = 1 then
            frame = [of_nat (push_bit 6 HEADER_1 OR push_bit 4 BROADCAST
                             OR (flags transit_packet AND 15)),
                     of_nat (hops transit_packet)] @ drop 18 (raw transit_packet)
          else frame = (raw transit_packet)[1 := of_nat (hops transit_packet)])"
  by (rule transit_forward_rewrites_frame)
     (simp_all add: multi_hop_state_def transit_packet_def path_aa_def transport0_def
        example_rns_def hash_bb_def hash_cc_def hash_aa_def)

subsection \<open>Inbound: link-request proofs\<close>

lemma inbound_lrproof_gate:
  assumes "transport_enabled T \<or> for_local_client_link T p \<or> from_local_client T p"
    and "link_table T (destination_hash p) = Some le"
  shows "inbound_lrproof R T p =
     (if hops p = lt_rem_hops le \<and> receiving_interface p = Some (lt_nh_if le)
         \<and> lrproof_validated R le p = Some True
      then (case struct_pack_B (hops p) of
              None \<Rightarrow> T
            | Some h \<Rightarrow>
                call_transmit (lt_rcvd_if le) (slice 0 1 (raw p) @ h @ drop 2 (raw p))
                  (T\<lparr>link_table := (link_table T)
                       (destination_hash p \<mapsto> le\<lparr>lt_validated := True\<rparr>)\<rparr>))
      else T)"
  using assms by (auto simp: inbound_lrproof_def split: option.splits bool.splits)

text \<open>The link entry that forwarding the example LINKREQUEST installs.\<close>

lemma link_state_entry: "link_table link_state (replicate 16 0x55) = Some lr_link_entry"
  by code_simp

text \<open>
  Claim C5.  Let this instance transport (transport enabled, or the link or the proof
  involves a local client interface), and let the link table hold an unvalidated entry \<open>L\<close>
  under the proof's destination hash, with a recorded \<open>received_if\<close>; let the proof have its
  two header bytes and a hop count that fits a byte.  If the LRPROOF arrives on \<open>L\<close>'s
  \<open>next_hop_if\<close> with \<open>hops\<close> equal to \<open>L\<close>'s remaining hops and its signature validates
  under the destination identity's key over (link id, peer public key, peer signing key,
  signalling bytes), then \<open>L.validated\<close> becomes true and the proof, with its hop byte
  refreshed, is transmitted on \<open>L.received_if\<close>.  On any other interface, with a hop
  mismatch, or without a valid signature, nothing is transmitted and \<open>L.validated\<close> stays
  false.
\<close>

theorem lrproof_transport:
  assumes gate: "transport_enabled T \<or> for_local_client_link T p \<or> from_local_client T p"
    and link: "link_table T (destination_hash p) = Some le" "\<not> lt_validated le"
      "lt_rcvd_if le = Some received_if"
    and fit: "hops p < 256" "2 \<le> length (raw p)"
  shows "if receiving_interface p = Some (lt_nh_if le) \<and> hops p = lt_rem_hops le
            \<and> lrproof_validated R le p = Some True
         then map_option lt_validated (link_table (inbound_lrproof R T p) (destination_hash p))
                = Some True
              \<and> transmitted (inbound_lrproof R T p)
                = transmitted T @ [(received_if, (raw p)[1 := of_nat (hops p)])]
         else map_option lt_validated (link_table (inbound_lrproof R T p) (destination_hash p))
                = Some False
              \<and> transmitted (inbound_lrproof R T p) = transmitted T"
  using link fit
  by (simp add: inbound_lrproof_gate [OF gate link(1)] struct_pack_B_def call_transmit_def
      hop_byte_update [OF fit(2)])

theorem lrproof_transport_witness:
  "map_option lt_validated
      (link_table (inbound_lrproof example_rns link_state lrproof_packet) (replicate 16 0x55))
     = Some True
   \<and> transmitted (inbound_lrproof example_rns link_state lrproof_packet)
     = transmitted link_state @ [(if2, (raw lrproof_packet)[1 := 0x03])]
   \<and> map_option lt_validated
      (link_table (inbound_lrproof example_rns link_state (lrproof_packet\<lparr>hops := 2\<rparr>))
         (replicate 16 0x55))
     = Some False
   \<and> transmitted (inbound_lrproof example_rns link_state (lrproof_packet\<lparr>hops := 2\<rparr>))
     = transmitted link_state"
proof -
  have gate: "transport_enabled link_state \<or> for_local_client_link link_state lrproof_packet
      \<or> from_local_client link_state lrproof_packet"
    by code_simp
  have gate2: "transport_enabled link_state
      \<or> for_local_client_link link_state (lrproof_packet\<lparr>hops := 2\<rparr>)
      \<or> from_local_client link_state (lrproof_packet\<lparr>hops := 2\<rparr>)"
    by code_simp
  have link: "link_table link_state (destination_hash lrproof_packet) = Some lr_link_entry"
    using link_state_entry by (simp add: lrproof_packet_def)
  have link2: "link_table link_state (destination_hash (lrproof_packet\<lparr>hops := 2\<rparr>))
      = Some lr_link_entry"
    using link_state_entry by (simp add: lrproof_packet_def)
  have unval: "\<not> lt_validated lr_link_entry" by (simp add: lr_link_entry_def)
  have rif: "lt_rcvd_if lr_link_entry = Some if2" by (simp add: lr_link_entry_def)
  have valid: "lrproof_validated example_rns lr_link_entry lrproof_packet = Some True"
    by code_simp
  have pos: "receiving_interface lrproof_packet = Some (lt_nh_if lr_link_entry)
      \<and> hops lrproof_packet = lt_rem_hops lr_link_entry"
    by (simp add: lrproof_packet_def lr_link_entry_def)
  have neg: "hops (lrproof_packet\<lparr>hops := 2\<rparr>) \<noteq> lt_rem_hops lr_link_entry"
    by (simp add: lr_link_entry_def)
  have fit: "hops lrproof_packet < 256" "2 \<le> length (raw lrproof_packet)"
    by (simp_all add: lrproof_packet_def)
  have fit2: "hops (lrproof_packet\<lparr>hops := 2\<rparr>) < 256"
      "2 \<le> length (raw (lrproof_packet\<lparr>hops := 2\<rparr>))"
    by (simp_all add: lrproof_packet_def)
  have d: "destination_hash lrproof_packet = replicate 16 0x55" "hops lrproof_packet = 3"
    by (simp_all add: lrproof_packet_def)
  from lrproof_transport [OF gate link unval rif fit, of example_rns] pos valid d
  have one: "map_option lt_validated
      (link_table (inbound_lrproof example_rns link_state lrproof_packet) (replicate 16 0x55))
     = Some True
   \<and> transmitted (inbound_lrproof example_rns link_state lrproof_packet)
     = transmitted link_state @ [(if2, (raw lrproof_packet)[1 := 0x03])]"
    by simp
  from lrproof_transport [OF gate2 link2 unval rif fit2, of example_rns] neg d
  have two: "map_option lt_validated
      (link_table (inbound_lrproof example_rns link_state (lrproof_packet\<lparr>hops := 2\<rparr>))
         (replicate 16 0x55))
     = Some False
   \<and> transmitted (inbound_lrproof example_rns link_state (lrproof_packet\<lparr>hops := 2\<rparr>))
     = transmitted link_state"
    by simp
  from one two show ?thesis by simp
qed

subsection \<open>Inbound: proofs\<close>

text \<open>The reverse entry that forwarding the example DATA packet installs.\<close>

lemma forwarded_state_entry:
  "reverse_table forwarded_state (replicate 16 0x44) = Some fwd_reverse_entry"
  by code_simp

text \<open>
  Claim C6, as stated for every PROOF that is not an LRPROOF, fails on a PROOF with context
  RESOURCE_PRF: it is handed to the active links only.  Addressed to the truncated hash of
  the forwarded packet and arriving on the stored outbound interface \<open>IF1\<close>, it is not
  transmitted, and the reverse entry stays.
\<close>

theorem resource_proof_not_transported:
  "inbound_proof example_rns forwarded_state (proof_packet\<lparr>pkt_context := RESOURCE_PRF\<rparr>)
     = Continues forwarded_state
   \<and> packet_type (proof_packet\<lparr>pkt_context := RESOURCE_PRF\<rparr>) = PROOF
   \<and> map_option rt_outb_if
        (reverse_table forwarded_state
           (destination_hash (proof_packet\<lparr>pkt_context := RESOURCE_PRF\<rparr>))) = Some if1
   \<and> receiving_interface (proof_packet\<lparr>pkt_context := RESOURCE_PRF\<rparr>) = Some if1"
proof -
  have "reverse_table forwarded_state (destination_hash proof_packet) = Some fwd_reverse_entry"
    using forwarded_state_entry by (simp add: proof_packet_def)
  then show ?thesis
    by (simp add: inbound_proof_def fwd_reverse_entry_def) (simp add: proof_packet_def)
qed

text \<open>
  Claim C6, amended.  Let this instance transport proofs (transport enabled, or the proof is
  from or for a local client), and let the reverse table hold an entry \<open>(A_if, B_if)\<close> under
  the destination hash of a PROOF whose context is neither LRPROOF nor RESOURCE_PRF, which
  arrives on \<open>B_if\<close> with its two header bytes and a hop count that fits a byte.  Then the
  proof, with its hop byte refreshed, is transmitted once, on \<open>A_if\<close>; the reverse entry is
  removed; and the same proof arriving again is not transmitted and changes nothing.
\<close>

theorem proof_transport_once:
  assumes ctx: "pkt_context p \<noteq> LRPROOF" "pkt_context p \<noteq> RESOURCE_PRF"
    and gate: "transport_enabled T \<or> from_local_client T p \<or> proof_for_local_client T p"
    and entry: "reverse_table T (destination_hash p) = Some re" "rt_rcvd_if re = Some a_if"
    and recv: "receiving_interface p = Some (rt_outb_if re)"
    and fit: "hops p < 256" "2 \<le> length (raw p)"
  shows "\<exists>T'. inbound_proof R T p = Continues T'
           \<and> transmitted T' = transmitted T @ [(a_if, (raw p)[1 := of_nat (hops p)])]
           \<and> reverse_table T' = (reverse_table T)(destination_hash p := None)
           \<and> inbound_proof R T' p = Continues T'"
proof -
  define T' where "T' = T\<lparr>reverse_table := (reverse_table T)(destination_hash p := None),
      transmitted := transmitted T @ [(a_if, (raw p)[1 := of_nat (hops p)])]\<rparr>"
  have first: "inbound_proof R T p = Continues T'"
    using ctx gate entry recv fit(1)
    by (auto simp: inbound_proof_def struct_pack_B_def call_transmit_def T'_def Let_def
        hop_byte_update [OF fit(2)])
  have gone: "reverse_table T' (destination_hash p) = None" by (simp add: T'_def)
  have second: "inbound_proof R T' p = Continues T'"
    using ctx gone by (simp add: inbound_proof_def)
  show ?thesis using first second by (auto simp: T'_def)
qed

theorem proof_transport_once_witness:
  "\<exists>T'. inbound_proof example_rns forwarded_state proof_packet = Continues T'
      \<and> transmitted T'
          = transmitted forwarded_state @ [(if2, (raw proof_packet)[1 := of_nat (hops proof_packet)])]
      \<and> reverse_table T'
          = (reverse_table forwarded_state)(destination_hash proof_packet := None)
      \<and> inbound_proof example_rns T' proof_packet = Continues T'"
proof (rule proof_transport_once)
  show "pkt_context proof_packet \<noteq> LRPROOF" "pkt_context proof_packet \<noteq> RESOURCE_PRF"
    by (simp_all add: proof_packet_def)
  show "transport_enabled forwarded_state \<or> from_local_client forwarded_state proof_packet
      \<or> proof_for_local_client forwarded_state proof_packet"
    by code_simp
  show "reverse_table forwarded_state (destination_hash proof_packet) = Some fwd_reverse_entry"
    using forwarded_state_entry by (simp add: proof_packet_def)
  show "rt_rcvd_if fwd_reverse_entry = Some if2" by (simp add: fwd_reverse_entry_def)
  show "receiving_interface proof_packet = Some (rt_outb_if fwd_reverse_entry)"
    by (simp add: proof_packet_def fwd_reverse_entry_def)
  show "hops proof_packet < 256" "2 \<le> length (raw proof_packet)"
    by (simp_all add: proof_packet_def)
qed


subsection \<open>Announce admission\<close>

text \<open>
  The early exit of the loop does not matter for the comparison \<open>emitted > \<dots>\<close>: the loop's
  result is below \<open>emitted\<close> iff the maximum timebase is.
\<close>

lemma timebase_foldl_mono:
  "acc \<le> foldl (\<lambda>timebase random_blob.
              (let emitted = timebase_from_random_blob random_blob
               in if emitted > timebase then emitted else timebase)) acc blobs"
proof (induction blobs arbitrary: acc)
  case Nil
  then show ?case by simp
next
  case (Cons b blobs)
  have "acc \<le> (if timebase_from_random_blob b > acc then timebase_from_random_blob b else acc)"
    by simp
  also have "\<dots> \<le> foldl (\<lambda>timebase random_blob.
              (let emitted = timebase_from_random_blob random_blob
               in if emitted > timebase then emitted else timebase))
          (if timebase_from_random_blob b > acc then timebase_from_random_blob b else acc) blobs"
    by (rule Cons.IH)
  finally show ?case by (simp add: Let_def)
qed

lemma path_announce_emitted_loop_gt:
  "(emitted > path_announce_emitted_loop emitted acc blobs)
   = (emitted > foldl (\<lambda>timebase random_blob.
              (let emitted = timebase_from_random_blob random_blob
               in if emitted > timebase then emitted else timebase)) acc blobs)"
proof (induction blobs arbitrary: acc)
  case Nil
  then show ?case by simp
next
  case (Cons b blobs)
  define acc' where "acc' = max acc (timebase_from_random_blob b)"
  have step: "(if timebase_from_random_blob b > acc then timebase_from_random_blob b else acc) = acc'"
    by (simp add: acc'_def max_def)
  show ?case
  proof (cases "acc' \<ge> emitted")
    case True
    have "acc' \<le> foldl (\<lambda>timebase random_blob.
              (let emitted = timebase_from_random_blob random_blob
               in if emitted > timebase then emitted else timebase)) acc' blobs"
      by (rule timebase_foldl_mono)
    with True show ?thesis
      by (simp add: Let_def step timebase_from_random_blob_def [symmetric] acc'_def [symmetric])
  next
    case False
    with Cons.IH [of acc'] show ?thesis
      by (simp add: Let_def step timebase_from_random_blob_def [symmetric] acc'_def [symmetric])
  qed
qed

lemma path_announce_emitted_gt_timebase:
  "(emitted > path_announce_emitted_loop emitted 0 blobs)
   = (emitted > timebase_from_random_blobs blobs)"
  by (simp add: path_announce_emitted_loop_gt timebase_from_random_blobs_def)

lemma announce_admit_unknown:
  assumes "destination_hash p \<notin> set (destinations T)" "hops p < 129"
    and "path_table T (destination_hash p) = None"
  shows "fst (announce_should_add R now T p)"
  using assms by (simp add: announce_should_add_def PATHFINDER_M_def Let_def)

lemma announce_admit_le_hops:
  assumes "destination_hash p \<notin> set (destinations T)" "hops p < 129"
    and "path_table T (destination_hash p) = Some pe" "hops p \<le> pt_hops pe"
  shows "fst (announce_should_add R now T p) = spec_admit_le_hops R pe p"
  using assms
  by (simp add: announce_should_add_def PATHFINDER_M_def Let_def spec_admit_le_hops_def)

lemma announce_admit_more_hops:
  assumes "destination_hash p \<notin> set (destinations T)" "hops p < 129"
    and "path_table T (destination_hash p) = Some pe" "hops p > pt_hops pe"
  shows "fst (announce_should_add R now T p) =
     ((now \<ge> pt_expires pe \<and> announce_random_blob R p \<notin> set (pt_randblobs pe))
      \<or> (now < pt_expires pe
          \<and> announce_emitted R p > timebase_from_random_blobs (pt_randblobs pe)
          \<and> announce_random_blob R p \<notin> set (pt_randblobs pe))
      \<or> (now < pt_expires pe
          \<and> announce_emitted R p
              = path_announce_emitted_loop (announce_emitted R p) 0 (pt_randblobs pe)
          \<and> path_is_unresponsive T (destination_hash p)))"
  using assms path_announce_emitted_gt_timebase [of "announce_emitted R p" "pt_randblobs pe"]
  by (auto simp: announce_should_add_def PATHFINDER_M_def Let_def)

text \<open>
  Claim C1.  For an unknown destination and for an announce with at most the stored hops, the
  code follows the spec's table (\<open>announce_admit_unknown\<close>, \<open>announce_admit_le_hops\<close>).  For
  an announce with more hops it does not: clause (c) compares the emission time with the
  running maximum at which the loop stopped, not with the maximum \<open>T\<close> over all stored blobs
  (\<open>announce_admit_more_hops\<close>).  With stored timebases 5 and 9 (so \<open>T = 9\<close>), a live path
  marked unresponsive with 1 hop, and an announce 3 hops away that replays the blob with
  timebase 5, the code admits the announce although none of (a), (b), (c) holds.  With the
  same two blobs stored in the other order, the code refuses the same announce.
\<close>

theorem replayed_announce_admitted:
  "fst (announce_should_add example_rns 100 unresponsive_state replayed_announce)
   \<and> map_option pt_hops (path_table unresponsive_state (destination_hash replayed_announce))
       = Some 1
   \<and> hops replayed_announce = 3
   \<and> announce_emitted example_rns replayed_announce = 5
   \<and> timebase_from_random_blobs (pt_randblobs unresponsive_path) = 9
   \<and> \<not> spec_admit_more_hops example_rns 100 unresponsive_state unresponsive_path
         replayed_announce
   \<and> \<not> fst (announce_should_add example_rns 100
              (unresponsive_state\<lparr>path_table :=
                 [hash_aa \<mapsto> unresponsive_path\<lparr>pt_randblobs := [blob_9, blob_5]\<rparr>]\<rparr>)
              replayed_announce)"
  by code_simp

subsection \<open>Random blobs and persistence\<close>

text \<open>
  The new \<open>random_blobs\<close> of an insertion stays duplicate-free and within 64 entries, and
  every path that \<open>save_tunnel_table\<close> writes has at most 32 random blobs.
\<close>

lemma length_last_n: "0 < n \<Longrightarrow> length (last_n n xs) \<le> n"
  by (simp add: last_n_def)

lemma set_last_n: "set (last_n n xs) \<subseteq> set xs"
  by (auto simp: last_n_def dest: in_set_dropD)

lemma distinct_last_n: "distinct xs \<Longrightarrow> distinct (last_n n xs)"
  by (simp add: last_n_def)

lemma remember_random_blob_bounded:
  assumes "distinct random_blobs"
  shows "distinct (snd (remember_random_blob random_blob random_blobs))
         \<and> (length random_blobs \<le> 64
              \<longrightarrow> length (snd (remember_random_blob random_blob random_blobs)) \<le> 64)"
proof (cases "random_blob \<in> set random_blobs")
  case True
  with assms show ?thesis by (simp add: remember_random_blob_def)
next
  case False
  with assms have "distinct (random_blobs @ [random_blob])" by simp
  then have "distinct (last_n MAX_RANDOM_BLOBS (random_blobs @ [random_blob]))"
    by (rule distinct_last_n)
  moreover have "length (last_n MAX_RANDOM_BLOBS (random_blobs @ [random_blob])) \<le> 64"
    using length_last_n [of MAX_RANDOM_BLOBS] by (simp add: MAX_RANDOM_BLOBS_def)
  ultimately show ?thesis using False by (simp add: remember_random_blob_def)
qed

lemma save_tunnel_table_bounded:
  assumes "save_tunnel_table R T = Some sts" "st \<in> set sts" "e \<in> set (st_paths st)"
  shows "length (se_random_blobs e) \<le> 32"
proof -
  have "length (last_n PERSIST_RANDOM_BLOBS bs) \<le> 32" for bs :: "bytes list"
    using length_last_n [of PERSIST_RANDOM_BLOBS bs] by (simp add: PERSIST_RANDOM_BLOBS_def)
  with assms show ?thesis
    by (auto simp: save_tunnel_table_def serialise_tunnel_def Let_def split: if_splits)
qed

text \<open>
  The list object that \<open>append\<close> changed is not the one that was truncated.  After 64
  different announces for a destination over a tunnel interface, the path entry and the
  tunnel's stored path share one list of 64 blobs; one more announce over another interface
  appends to that list in place, so the tunnel's copy holds 65 blobs; and when the tunnel is
  restored, the path entry gets all 65.
\<close>

lemma last_n_short: "length xs \<le> n \<Longrightarrow> last_n n xs = xs"
  by (simp add: last_n_def)

lemma insert_announce_shared:
  assumes "path_blobs H = Some r" "tunnel_blobs H = Some r" "r < next_object H"
    and "random_blob \<notin> set (objects H r)" "length (objects H r) < 64"
  shows "\<exists>r'. path_blobs (insert_announce True random_blob H) = Some r'
           \<and> tunnel_blobs (insert_announce True random_blob H) = Some r'
           \<and> r' < next_object (insert_announce True random_blob H)
           \<and> objects (insert_announce True random_blob H) r' = objects H r @ [random_blob]"
  using assms
  by (simp add: insert_announce_def remember_random_blob_def Let_def MAX_RANDOM_BLOBS_def
      last_n_short)

lemma tunnel_announces_shared:
  assumes "distinct bs" "length bs \<le> 64" "bs \<noteq> []"
  shows "\<exists>r. path_blobs (fold (insert_announce True) bs empty_heap) = Some r
           \<and> tunnel_blobs (fold (insert_announce True) bs empty_heap) = Some r
           \<and> r < next_object (fold (insert_announce True) bs empty_heap)
           \<and> objects (fold (insert_announce True) bs empty_heap) r = bs"
  using assms
proof (induction bs rule: rev_induct)
  case Nil
  then show ?case by simp
next
  case (snoc b bs)
  show ?case
  proof (cases "bs = []")
    case True
    then show ?thesis
      by (simp add: insert_announce_def remember_random_blob_def Let_def empty_heap_def
          MAX_RANDOM_BLOBS_def last_n_def)
  next
    case False
    with snoc obtain r where r: "path_blobs (fold (insert_announce True) bs empty_heap) = Some r"
        "tunnel_blobs (fold (insert_announce True) bs empty_heap) = Some r"
        "r < next_object (fold (insert_announce True) bs empty_heap)"
        "objects (fold (insert_announce True) bs empty_heap) r = bs"
      by auto
    from snoc.prems have "b \<notin> set bs" "length bs < 64" by auto
    with r insert_announce_shared [of "fold (insert_announce True) bs empty_heap" r b]
    show ?thesis by simp
  qed
qed

lemma tunnel_copy_outgrows:
  assumes "distinct bs" "length bs = 64" "random_blob \<notin> set bs"
  shows "stored_blobs (restore_tunnel_path (insert_announce False random_blob
           (fold (insert_announce True) bs empty_heap))) = bs @ [random_blob]"
proof -
  from assms(2) have "length bs \<le> 64" "bs \<noteq> []" by auto
  with assms(1) obtain r where
    r: "path_blobs (fold (insert_announce True) bs empty_heap) = Some r"
      "tunnel_blobs (fold (insert_announce True) bs empty_heap) = Some r"
      "r < next_object (fold (insert_announce True) bs empty_heap)"
      "objects (fold (insert_announce True) bs empty_heap) r = bs"
    using tunnel_announces_shared [of bs] by blast
  with assms show ?thesis
    by (simp add: insert_announce_def remember_random_blob_def Let_def restore_tunnel_path_def
        stored_blobs_def)
qed

text \<open>
  Claim C9.  The code does not do what the claim says of the persisted copy:
  \<open>save_path_table\<close> writes the stored list as it is, without the slice
  \<open>[-PERSIST_RANDOM_BLOBS:]\<close> that \<open>save_tunnel_table\<close> applies.  A path entry that has heard
  33 different announces (the list that 33 insertions build) is written with 33 random
  blobs.  (The bound of 64 in memory holds for the list an insertion stores, by
  \<open>remember_random_blob_bounded\<close>, and fails for a path restored from a tunnel, by
  \<open>tunnel_copy_outgrows\<close>.)
\<close>

theorem save_path_table_persists_33_blobs:
  "map_option (map (length \<circ> se_random_blobs)) (save_path_table example_rns busy_state [hash_aa])
     = Some [33]
   \<and> foldl (\<lambda>random_blobs random_blob. snd (remember_random_blob random_blob random_blobs))
        [] blobs_33 = pt_randblobs (path_aa\<lparr>pt_randblobs := blobs_33\<rparr>)"
  by code_simp


subsection \<open>IFAC framing\<close>

lemma bit_int_128: "bit (128::int) n \<longleftrightarrow> n = 7"
proof -
  have e: "(128::int) = 2 ^ 7" by simp
  have "bit (2 ^ 7 :: int) n \<longleftrightarrow> n = 7" by (auto simp only: bit_exp_iff) simp
  then show ?thesis by (simp only: e)
qed

lemma bit_int_127: "bit (127::int) n \<longleftrightarrow> n < 7"
proof -
  have e: "(127::int) = mask 7" by (simp add: mask_eq_exp_minus_1)
  have "bit (mask 7 :: int) n \<longleftrightarrow> n < 7" by (auto simp only: bit_mask_iff) simp
  then show ?thesis by (simp only: e)
qed

lemma flag_clear_iff: fixes b :: byte shows "b AND 0x80 = 0 \<longleftrightarrow> \<not> bit b 7"
proof
  assume "b AND 0x80 = 0"
  then have "\<not> bit (b AND 0x80) 7" by simp
  then show "\<not> bit b 7" by (simp add: bit_simps bit_int_128)
next
  assume nb: "\<not> bit b 7"
  show "b AND 0x80 = 0"
  proof (rule bit_word_eqI)
    fix n assume "n < LENGTH(8)"
    with nb show "bit (b AND 0x80) n = bit (0::byte) n"
      by (cases "n = 7") (auto simp: bit_simps bit_int_128)
  qed
qed

lemma flag_byte_roundtrip:
  fixes b m :: byte
  assumes "b AND 0x80 = 0"
  shows "((((b OR 0x80) XOR m) OR 0x80) XOR m) AND 0x7f = b"
proof (rule bit_word_eqI)
  fix n assume n: "n < LENGTH(8)"
  from assms have nb: "\<not> bit b 7" by (simp add: flag_clear_iff)
  show "bit (((((b OR 0x80) XOR m) OR 0x80) XOR m) AND 0x7f) n = bit b n"
    using nb n by (cases "n = 7") (auto simp: bit_simps bit_int_128 bit_int_127)
qed

lemma flag_cleared: fixes x :: byte shows "(x AND 0x7f) AND 0x80 = 0"
proof (rule bit_word_eqI)
  fix n assume "n < LENGTH(8)"
  then show "bit ((x AND 0x7f) AND 0x80) n = bit (0::byte) n"
    by (cases "n = 7") (auto simp: bit_simps bit_int_128 bit_int_127)
qed

lemma flag_set: fixes x :: byte shows "(x OR 0x80) AND 0x80 = 0x80"
  by (auto simp: bit_eq_iff bit_simps bit_int_128)


lemma mask_loop_skip:
  "2 \<le> i \<Longrightarrow> i + length xs \<le> sz + 2 \<Longrightarrow>
   mask_loop sz msk i (xs @ rest) = map_option ((@) xs) (mask_loop sz msk (i + length xs) rest)"
proof (induction xs arbitrary: i)
  case Nil
  then show ?case by (simp add: option.map_ident)
next
  case (Cons x xs)
  from Cons.prems have "mask_loop sz msk (Suc i) (xs @ rest)
      = map_option ((@) xs) (mask_loop sz msk (Suc i + length xs) rest)"
    by (intro Cons.IH) auto
  with Cons.prems show ?case by (simp add: option.map_comp comp_def)
qed

lemma unmask_loop_skip:
  "2 \<le> i \<Longrightarrow> i + length xs \<le> sz + 2 \<Longrightarrow>
   unmask_loop sz msk i (xs @ rest) = map_option ((@) xs) (unmask_loop sz msk (i + length xs) rest)"
proof (induction xs arbitrary: i)
  case Nil
  then show ?case by (simp add: option.map_ident)
next
  case (Cons x xs)
  from Cons.prems have "unmask_loop sz msk (Suc i) (xs @ rest)
      = map_option ((@) xs) (unmask_loop sz msk (Suc i + length xs) rest)"
    by (intro Cons.IH) auto
  with Cons.prems show ?case by (simp add: option.map_comp comp_def)
qed

lemma mask_unmask_payload:
  "sz + 1 < i \<Longrightarrow> i + length xs \<le> length msk \<Longrightarrow>
   \<exists>ys. mask_loop sz msk i xs = Some ys \<and> length ys = length xs
        \<and> unmask_loop sz msk i ys = Some xs"
proof (induction xs arbitrary: i)
  case Nil
  then show ?case by simp
next
  case (Cons x xs)
  from Cons.prems obtain ys where ys: "mask_loop sz msk (Suc i) xs = Some ys"
      "length ys = length xs" "unmask_loop sz msk (Suc i) ys = Some xs"
    using Cons.IH [of "Suc i"] by auto
  with Cons.prems show ?case by (simp add: xor.assoc)
qed

lemma inbound_ifac_accepted_flag_clear:
  assumes "ifac_identity i = Some key" and "inbound_ifac C (Some i) frame = Accepted r"
  shows "hd r AND 0x80 = 0"
  using assms
  by (auto simp: inbound_ifac_def Let_def flag_cleared
      split: if_splits option.splits list.splits)

text \<open>
  Claim C3, as stated for every byte string, fails on a first byte whose high bit is already
  set: inbound clears that bit before it recomputes the access code, so the frame that
  \<open>transmit\<close> produced for \<open>80 00 00\<close> is dropped (and whatever inbound accepts has the bit
  clear, by \<open>inbound_ifac_accepted_flag_clear\<close>).
\<close>

theorem ifac_flagged_raw_not_recovered:
  "transmit example_crypto ifac_if [0x80, 0x00, 0x00] = Some [235, 107, 135, 135, 107]
   \<and> inbound_ifac example_crypto (Some ifac_if) [235, 107, 135, 135, 107] = Dropped"
  by code_simp

text \<open>
  Claim C3, amended.  Let the interface have an IFAC identity, with
  \<open>1 \<le> ifac_size \<le>\<close> the signature's length, let signing and key derivation succeed with a
  key stream of the requested length, and let \<open>raw\<close> have at least 3 bytes, the high bit of
  the first one clear.  Then \<open>transmit\<close> hands the driver a frame whose first byte has the
  high bit set, and \<open>inbound\<close> applied to that frame goes on with exactly \<open>raw\<close>.
\<close>

theorem ifac_roundtrip:
  assumes ident: "ifac_identity i = Some key"
    and sg: "sign C key bs = Some sg"
    and sz: "0 < ifac_size i" "ifac_size i \<le> length sg"
    and msk: "hkdf C (length bs + ifac_size i) (last_n (ifac_size i) sg) (ifac_key i) = Some msk"
      "length msk = length bs + ifac_size i"
    and len: "3 \<le> length bs"
    and flag: "hd bs AND 0x80 = 0"
  shows "\<exists>frame. transmit C i bs = Some frame \<and> hd frame AND 0x80 = 0x80
           \<and> inbound_ifac C (Some i) frame = Accepted bs"
proof -
  from len obtain b0 b1 rest where bs: "bs = b0 # b1 # rest" and rest: "rest \<noteq> []"
    by (cases bs; cases "tl bs"; cases "tl (tl bs)") auto
  define ifac where "ifac = last_n (ifac_size i) sg"
  have lifac: "length ifac = ifac_size i"
    using sz by (simp add: ifac_def last_n_def)
  have lmsk: "length msk = 2 + ifac_size i + length rest"
    using msk(2) bs by simp
  obtain ys where ys: "mask_loop (ifac_size i) msk (2 + ifac_size i) rest = Some ys"
      "length ys = length rest" "unmask_loop (ifac_size i) msk (2 + ifac_size i) ys = Some rest"
    using mask_unmask_payload [of "ifac_size i" "2 + ifac_size i" rest msk] lmsk by auto
  define y0 where "y0 = ((b0 OR 0x80) XOR msk ! 0) OR 0x80"
  define y1 where "y1 = b1 XOR msk ! 1"
  define frame where "frame = y0 # y1 # ifac @ ys"
  have skip: "mask_loop (ifac_size i) msk 2 (ifac @ rest) = Some (ifac @ ys)"
    using mask_loop_skip [of 2 ifac "ifac_size i" msk rest] lifac ys(1) by simp
  have tx: "transmit C i bs = Some frame"
    using ident sg msk(1) lmsk skip
    by (simp add: transmit_def bs ifac_def [symmetric] frame_def y0_def y1_def numeral_2_eq_2)
  have hd_frame: "hd frame AND 0x80 = 0x80"
    by (simp add: frame_def y0_def flag_set)
  have uskip: "unmask_loop (ifac_size i) msk 2 (ifac @ ys) = Some (ifac @ rest)"
    using unmask_loop_skip [of 2 ifac "ifac_size i" msk ys] lifac ys(3) by simp
  have un: "unmask_loop (ifac_size i) msk 0 frame
      = Some ((y0 XOR msk ! 0) # b1 # ifac @ rest)"
    using lmsk uskip by (simp add: frame_def y1_def numeral_2_eq_2 xor.assoc)
  have b0: "(y0 XOR msk ! 0) AND 0x7f = b0"
    using flag by (simp add: y0_def bs flag_byte_roundtrip)
  have lframe: "length frame = length bs + ifac_size i"
    by (simp add: frame_def lifac ys(2) bs)
  have sl: "slice 2 (2 + ifac_size i) frame = ifac"
    by (simp add: slice_def frame_def lifac)
  have "inbound_ifac C (Some i) frame = Accepted bs"
    using ident sg msk(1) rest hd_frame sl
    by (simp add: inbound_ifac_def Let_def lframe un b0 lifac ifac_def [symmetric] bs)
  with tx hd_frame show ?thesis by blast
qed

theorem ifac_roundtrip_witness:
  "\<exists>frame. transmit example_crypto ifac_if [0x00, 0x01, 0x02, 0x03] = Some frame
      \<and> hd frame AND 0x80 = 0x80
      \<and> inbound_ifac example_crypto (Some ifac_if) frame = Accepted [0x00, 0x01, 0x02, 0x03]"
proof (rule ifac_roundtrip)
  show "ifac_identity ifac_if = Some [0x07]" by (simp add: ifac_if_def)
  show "sign example_crypto [0x07] [0x00, 0x01, 0x02, 0x03] = Some (replicate 4 0x0d)"
    by code_simp
  show "0 < ifac_size ifac_if" by (simp add: ifac_if_def)
  show "ifac_size ifac_if \<le> length (replicate 4 (0x0d::byte))" by (simp add: ifac_if_def)
  show "hkdf example_crypto (length [0x00, 0x01, 0x02, 0x03 :: byte] + ifac_size ifac_if)
          (last_n (ifac_size ifac_if) (replicate 4 0x0d)) (ifac_key ifac_if)
        = Some (replicate 6 0x77)"
    by code_simp
  show "length (replicate 6 (0x77::byte)) = length [0x00, 0x01, 0x02, 0x03 :: byte] + ifac_size ifac_if"
    by (simp add: ifac_if_def)
  show "3 \<le> length [0x00, 0x01, 0x02, 0x03 :: byte]" by simp
  show "hd [0x00, 0x01, 0x02, 0x03 :: byte] AND 0x80 = 0" by simp
qed


end
